theory Spec2Isabelle
  imports Complex_Main
begin

section \<open>JavaScript values\<close>

text \<open>
  The server is TypeScript, but the types of \<^verbatim>\<open>server.ts\<close> are erased at run time: a
  decoded frame is whatever \<^verbatim>\<open>JSON.parse\<close> returned, and \<^verbatim>\<open>message.roomId\<close> may be
  any value. \<open>jsval\<close> is the set of values the handlers can meet: the JSON values,
  \<open>Undefined\<close> for a missing property, and \<open>JInfinity\<close> for a number literal that
  overflows. An array or object carries its identity (its address in the heap):
  JavaScript compares objects by identity, also as keys of a \<^verbatim>\<open>Map\<close>, and every
  \<^verbatim>\<open>JSON.parse\<close> builds new objects. Equality of \<open>jsval\<close> is then \<^verbatim>\<open>===\<close> and the
  key equality of \<^verbatim>\<open>Map\<close> (the two differ on \<^verbatim>\<open>NaN\<close> only, which JSON cannot
  write; \<^verbatim>\<open>-0\<close> and \<^verbatim>\<open>0\<close> are equal under both).
\<close>

datatype jsval =
    Undefined
  | JNull
  | JBool bool
  | JNum rat
  | JInfinity bool
  | JStr string
  | JArr nat "jsval list"
  | JObj nat "(string \<times> jsval) list"

datatype error = SyntaxError | TypeError | RangeError

text \<open>\<^verbatim>\<open>!v\<close> is false exactly for the truthy values.\<close>

fun truthy :: "jsval \<Rightarrow> bool" where
  "truthy Undefined = False"
| "truthy JNull = False"
| "truthy (JBool b) = b"
| "truthy (JNum n) = (n \<noteq> 0)"
| "truthy (JInfinity neg) = True"
| "truthy (JStr s) = (s \<noteq> [])"
| "truthy (JArr a vs) = True"
| "truthy (JObj a fs) = True"

text \<open>
  Property access \<^verbatim>\<open>v.k\<close>. Reading a property of \<^verbatim>\<open>null\<close> or \<^verbatim>\<open>undefined\<close> raises a
  TypeError. The handlers read only \<^verbatim>\<open>type\<close>, \<^verbatim>\<open>roomId\<close>, \<^verbatim>\<open>playerId\<close>,
  \<^verbatim>\<open>displayName\<close> and \<^verbatim>\<open>message\<close>, which no built-in prototype defines, so on
  anything but an object with that own property the result is \<^verbatim>\<open>undefined\<close>.
\<close>

fun nullish :: "jsval \<Rightarrow> bool" where
  "nullish Undefined = True"
| "nullish JNull = True"
| "nullish v = False"

fun get_field :: "jsval \<Rightarrow> string \<Rightarrow> jsval" where
  "get_field (JObj a fs) k = (case map_of fs k of Some v \<Rightarrow> v | None \<Rightarrow> Undefined)"
| "get_field v k = Undefined"

definition getprop :: "jsval \<Rightarrow> string \<Rightarrow> error + jsval" where
  "getprop v k = (if nullish v then Inl TypeError else Inr (get_field v k))"

text \<open>
  A template literal \<^verbatim>\<open>`... ${v} ...`\<close> converts each \<open>v\<close> to a string, from left to
  right. \<open>ToString d v\<close> is the error the conversion of \<open>v\<close> raises, if any; the text
  it builds is only logged and is not modelled.
  \<^item> A primitive value converts without a call.
  \<^item> For an object the conversion calls its \<^verbatim>\<open>toString\<close>. An object decoded from JSON
    that has an own property named \<^verbatim>\<open>toString\<close> shadows the inherited method with a
    value that is not callable, the inherited \<^verbatim>\<open>valueOf\<close> returns the object itself,
    and the conversion raises a TypeError.
  \<^item> For an array the conversion calls \<^verbatim>\<open>join\<close>, which converts the elements in
    order (\<^verbatim>\<open>null\<close> and \<^verbatim>\<open>undefined\<close> give the empty string), calling itself for an
    element that is an array.
  \<^item> The call stack of the engine is finite: \<open>d\<close> is the number of nested calls it
    still has room for while the listener runs (one number for the whole listener:
    the few frames of the handlers themselves are not counted). A conversion that
    needs a call when \<open>d\<close> is used up raises a RangeError (\<^verbatim>\<open>Maximum call stack size
    exceeded\<close>), so an array nested deeper than \<open>d\<close> does not convert.
\<close>

fun primitive :: "jsval \<Rightarrow> bool" where
  "primitive (JArr a vs) = False"
| "primitive (JObj a fs) = False"
| "primitive v = True"

fun first_error :: "error option list \<Rightarrow> error option" where
  "first_error [] = None"
| "first_error (None # es) = first_error es"
| "first_error (Some e # es) = Some e"

fun ToString :: "nat \<Rightarrow> jsval \<Rightarrow> error option" where
  "ToString d (JObj a fs) =
     (if d = 0 then Some RangeError
      else if ''toString'' \<in> fst ` set fs then Some TypeError else None)"
| "ToString d (JArr a vs) =
     (if d = 0 then Some RangeError else first_error (map (ToString (d - 1)) vs))"
| "ToString d v = None"

definition template :: "nat \<Rightarrow> jsval list \<Rightarrow> error option" where
  "template d vs = first_error (map (ToString d) vs)"

section \<open>JSON text\<close>

text \<open>
  A text frame is identified with the syntax tree of the JSON it holds.
  \<^verbatim>\<open>JSON.stringify\<close> leaves out a property whose value is \<^verbatim>\<open>undefined\<close>, writes
  \<^verbatim>\<open>null\<close> for such an array element and for an infinite number, and returns
  \<^verbatim>\<open>undefined\<close> (here \<open>None\<close>) for \<^verbatim>\<open>undefined\<close> itself. It is given no stack
  bound here: what it does on a value nested too deep for the engine is left out.
\<close>

datatype json_text =
    TNull
  | TBool bool
  | TNum rat
  | TStr string
  | TArr "json_text list"
  | TObj "(string \<times> json_text) list"

fun JSON_stringify :: "jsval \<Rightarrow> json_text option" where
  "JSON_stringify Undefined = None"
| "JSON_stringify JNull = Some TNull"
| "JSON_stringify (JBool b) = Some (TBool b)"
| "JSON_stringify (JNum n) = Some (TNum n)"
| "JSON_stringify (JInfinity neg) = Some TNull"
| "JSON_stringify (JStr s) = Some (TStr s)"
| "JSON_stringify (JArr a vs) =
     Some (TArr (map (\<lambda>v. case JSON_stringify v of None \<Rightarrow> TNull | Some t \<Rightarrow> t) vs))"
| "JSON_stringify (JObj a fs) =
     Some (TObj (concat (map (\<lambda>(k, v). case JSON_stringify v of None \<Rightarrow> [] | Some t \<Rightarrow> [(k, t)]) fs)))"

text \<open>
  A message the server builds is an object literal such as
  \<^verbatim>\<open>{type: 'chat', playerId: ...}\<close>: its properties in order. (A message the server
  receives is a \<open>jsval\<close>: nothing checks that it has the shape of \<^verbatim>\<open>Message\<close>.)
\<close>

type_synonym Message = "(string \<times> jsval) list"

definition stringify_Message :: "Message \<Rightarrow> json_text" where
  "stringify_Message m =
     TObj (concat (map (\<lambda>(k, v). case JSON_stringify v of None \<Rightarrow> [] | Some t \<Rightarrow> [(k, t)]) m))"

text \<open>
  A \<^verbatim>\<open>Map\<close> that the code iterates is the list of its entries in insertion order,
  the keys distinct, and its \<^verbatim>\<open>size\<close> is the length of the list.
  \<^verbatim>\<open>Map.prototype.set\<close> on a key that is present replaces the value in place, on a
  new key it appends; \<^verbatim>\<open>delete\<close> takes the entry out. An object under construction
  by \<^verbatim>\<open>JSON.parse\<close> treats a repeated member name as \<^verbatim>\<open>set\<close> does.
\<close>

definition Map_has :: "'k \<Rightarrow> ('k \<times> 'v) list \<Rightarrow> bool" where
  "Map_has k m = (k \<in> fst ` set m)"

fun Map_set :: "'k \<Rightarrow> 'v \<Rightarrow> ('k \<times> 'v) list \<Rightarrow> ('k \<times> 'v) list" where
  "Map_set k v [] = [(k, v)]"
| "Map_set k v (p # ps) = (if fst p = k then (k, v) # ps else p # Map_set k v ps)"

definition Map_delete :: "'k \<Rightarrow> ('k \<times> 'v) list \<Rightarrow> ('k \<times> 'v) list" where
  "Map_delete k m = filter (\<lambda>p. fst p \<noteq> k) m"

text \<open>
  \<^verbatim>\<open>JSON.parse\<close> of a text, as the receiving side runs it: the first argument is the
  next free heap address, returned advanced past the objects built; \<open>parse_members\<close>
  adds the members to the object built so far, from left to right.
\<close>

fun JSON_parse :: "nat \<Rightarrow> json_text \<Rightarrow> jsval \<times> nat"
  and parse_elements :: "nat \<Rightarrow> json_text list \<Rightarrow> jsval list \<times> nat"
  and parse_members ::
    "nat \<Rightarrow> (string \<times> jsval) list \<Rightarrow> (string \<times> json_text) list \<Rightarrow> (string \<times> jsval) list \<times> nat"
where
  "JSON_parse n TNull = (JNull, n)"
| "JSON_parse n (TBool b) = (JBool b, n)"
| "JSON_parse n (TNum r) = (JNum r, n)"
| "JSON_parse n (TStr s) = (JStr s, n)"
| "JSON_parse n (TArr ts) = (case parse_elements (Suc n) ts of (vs, n') \<Rightarrow> (JArr n vs, n'))"
| "JSON_parse n (TObj ms) = (case parse_members (Suc n) [] ms of (fs, n') \<Rightarrow> (JObj n fs, n'))"
| "parse_elements n [] = ([], n)"
| "parse_elements n (t # ts) =
     (case JSON_parse n t of (v, n1) \<Rightarrow>
        (case parse_elements n1 ts of (vs, n2) \<Rightarrow> (v # vs, n2)))"
| "parse_members n fs [] = (fs, n)"
| "parse_members n fs ((k, t) # ms) =
     (case JSON_parse n t of (v, n1) \<Rightarrow> parse_members n1 (Map_set k v fs) ms)"

fun own_keys :: "jsval \<Rightarrow> string list" where
  "own_keys (JObj a fs) = map fst fs"
| "own_keys v = []"

section \<open>The server state\<close>

text \<open>
  A connection (\<^verbatim>\<open>WebSocket\<close>) is an object of the transport library, known by its
  identity. Its \<^verbatim>\<open>readyState\<close> belongs to the transport and is read, never written,
  by the server. What a listener meets outside the server state is its
  \<open>environment\<close>: the \<open>readyState\<close> of every connection, and the room the engine's
  call stack has left (\<open>stack\<close>, see \<open>ToString\<close>). Each listener and handler takes it
  as its first argument; \<^verbatim>\<open>broadcastToRoom\<close> and \<^verbatim>\<open>addPlayer\<close> need the
  \<open>readyState\<close> only.
\<close>

type_synonym WebSocket = nat

datatype ready_state = CONNECTING | OPEN | CLOSING | CLOSED

record environment =
  readyState :: "WebSocket \<Rightarrow> ready_state"
  stack :: nat

record ClientInfo =
  id_ClientInfo :: string
  roomId :: jsval
  playerId :: jsval

record Player =
  ws :: WebSocket
  clientId :: string

record GameRoom =
  id_GameRoom :: jsval
  players :: "(jsval \<times> Player) list"
  playerIds :: "jsval list"

record GameServer =
  rooms :: "jsval \<rightharpoonup> GameRoom"
  clients :: "WebSocket \<rightharpoonup> ClientInfo"

text \<open>
  One call of \<^verbatim>\<open>broadcastToRoom\<close>, as the trace records it: the room that broadcast
  (\<^verbatim>\<open>this.id\<close>), the message, and the \<^verbatim>\<open>send\<close> calls made, in order.
\<close>

record broadcast_call =
  of_room :: jsval
  message :: Message
  sent :: "(WebSocket \<times> json_text) list"

text \<open>
  What a handler leaves behind: the state, the broadcasts made, and the error it
  raised, if any. A handler that raises keeps the mutations made before the raise.
\<close>

type_synonym outcome = "GameServer \<times> broadcast_call list \<times> error option"

subsection \<open>GameRoom\<close>

definition new_GameRoom :: "jsval \<Rightarrow> GameRoom" where
  "new_GameRoom rid = \<lparr>id_GameRoom = rid, players = [], playerIds = []\<rparr>"

text \<open>
  \<^verbatim>\<open>players.forEach\<close> visits the members in insertion order; the loop state is the
  room and the sends made so far. \<open>rs\<close> is the \<^verbatim>\<open>readyState\<close> of every connection.
\<close>

definition broadcastToRoom ::
  "(WebSocket \<Rightarrow> ready_state) \<Rightarrow> GameRoom \<Rightarrow> Message \<Rightarrow> WebSocket option
     \<Rightarrow> GameRoom \<times> broadcast_call" where
  "broadcastToRoom rs room msg excludeWs =
     (case foldl
        (\<lambda>(this, out) (k, player).
           if Some (ws player) \<noteq> excludeWs \<and> rs (ws player) = OPEN
           then (this, out @ [(ws player, stringify_Message msg)])
           else (this, out))
        (room, []) (players room)
      of (this, out) \<Rightarrow> (this, \<lparr>of_room = id_GameRoom room, message = msg, sent = out\<rparr>))"

definition addPlayer ::
  "(WebSocket \<Rightarrow> ready_state) \<Rightarrow> GameRoom \<Rightarrow> WebSocket \<Rightarrow> string \<Rightarrow> jsval
     \<Rightarrow> GameRoom \<times> broadcast_call list" where
  "addPlayer rs room conn cid pid =
     (let this = room\<lparr>players := Map_set pid \<lparr>ws = conn, clientId = cid\<rparr> (players room),
                       playerIds := playerIds room @ [pid]\<rparr>
      in if length (players this) = 2
         then (case broadcastToRoom rs this [(''type'', JStr ''game_started'')] None of
                 (this', b) \<Rightarrow> (this', [b]))
         else (this, []))"

definition removePlayer :: "GameRoom \<Rightarrow> jsval \<Rightarrow> GameRoom" where
  "removePlayer room pid =
     room\<lparr>players := Map_delete pid (players room), playerIds := remove1 pid (playerIds room)\<rparr>"

definition hasPlayer :: "GameRoom \<Rightarrow> jsval \<Rightarrow> bool" where
  "hasPlayer room pid = Map_has pid (players room)"

definition getPlayerCount :: "GameRoom \<Rightarrow> nat" where
  "getPlayerCount room = length (players room)"

definition isFull :: "GameRoom \<Rightarrow> bool" where
  "isFull room = (length (players room) \<ge> 2)"

subsection \<open>GameServer\<close>

definition new_GameServer :: GameServer where
  "new_GameServer = \<lparr>rooms = Map.empty, clients = Map.empty\<rparr>"

text \<open>The \<^verbatim>\<open>connection\<close> listener; \<open>cid\<close> is the identifier \<^verbatim>\<open>uuidv4()\<close> returned.\<close>

definition on_connection :: "WebSocket \<Rightarrow> string \<Rightarrow> GameServer \<Rightarrow> GameServer" where
  "on_connection conn cid s =
     s\<lparr>clients := (clients s)(conn \<mapsto> \<lparr>id_ClientInfo = cid, roomId = JNull, playerId = JNull\<rparr>)\<rparr>"

definition handleJoinRoom ::
  "environment \<Rightarrow> WebSocket \<Rightarrow> jsval \<Rightarrow> jsval \<Rightarrow> GameServer \<Rightarrow> outcome" where
  "handleJoinRoom env conn rid pid s =
     (case clients s conn of
        None \<Rightarrow> (s, [], None)
      | Some clientInfo \<Rightarrow>
          if \<not> truthy rid \<or> \<not> truthy pid then (s, [], None)
          else
            let created = (rooms s rid = None);
                s1 = (if created then s\<lparr>rooms := (rooms s)(rid \<mapsto> new_GameRoom rid)\<rparr> else s)
            in if created \<and> template (stack env) [rid] \<noteq> None
               then (s1, [], template (stack env) [rid])
               else
                 (case rooms s1 rid of
                    None \<Rightarrow> (s1, [], Some TypeError)
                  | Some room \<Rightarrow>
                      if hasPlayer room pid
                      then (s1, [], template (stack env) [pid, rid])
                      else
                        (case addPlayer (readyState env) room conn (id_ClientInfo clientInfo) pid of
                           (room', out) \<Rightarrow>
                             (s1\<lparr>rooms := (rooms s1)(rid \<mapsto> room'),
                                 clients := (clients s1)(conn \<mapsto>
                                   clientInfo\<lparr>roomId := rid, playerId := pid\<rparr>)\<rparr>,
                              out,
                              template (stack env) [pid, rid]))))"

definition handleChat ::
  "environment \<Rightarrow> WebSocket \<Rightarrow> jsval \<Rightarrow> GameServer \<Rightarrow> outcome" where
  "handleChat env conn msg s =
     (case clients s conn of
        None \<Rightarrow> (s, [], None)
      | Some clientInfo \<Rightarrow>
          if \<not> truthy (roomId clientInfo) then (s, [], None)
          else
            (case rooms s (roomId clientInfo) of
               None \<Rightarrow> (s, [], None)
             | Some room \<Rightarrow>
                 if nullish msg then (s, [], Some TypeError)
                 else
                   (case template (stack env)
                           [get_field msg ''displayName'', playerId clientInfo,
                            get_field msg ''message''] of
                      Some e \<Rightarrow> (s, [], Some e)
                    | None \<Rightarrow>
                        (case broadcastToRoom (readyState env) room
                                [(''type'', JStr ''chat''),
                                 (''playerId'', playerId clientInfo),
                                 (''displayName'', get_field msg ''displayName''),
                                 (''message'', get_field msg ''message'')] None of
                           (room', b) \<Rightarrow>
                             (s\<lparr>rooms := (rooms s)(roomId clientInfo \<mapsto> room')\<rparr>, [b], None)))))"

definition handleActionComplete ::
  "environment \<Rightarrow> WebSocket \<Rightarrow> jsval \<Rightarrow> GameServer \<Rightarrow> outcome" where
  "handleActionComplete env conn msg s =
     (case clients s conn of
        None \<Rightarrow> (s, [], None)
      | Some clientInfo \<Rightarrow>
          if \<not> truthy (roomId clientInfo) then (s, [], None)
          else
            (case rooms s (roomId clientInfo) of
               None \<Rightarrow> (s, [], None)
             | Some room \<Rightarrow>
                 (case template (stack env) [playerId clientInfo] of
                    Some e \<Rightarrow> (s, [], Some e)
                  | None \<Rightarrow>
                      (case broadcastToRoom (readyState env) room
                              [(''type'', JStr ''action_complete''),
                               (''playerId'', playerId clientInfo)] None of
                         (room', b) \<Rightarrow>
                           (s\<lparr>rooms := (rooms s)(roomId clientInfo \<mapsto> room')\<rparr>, [b], None)))))"

definition handleGameOver ::
  "environment \<Rightarrow> WebSocket \<Rightarrow> jsval \<Rightarrow> GameServer \<Rightarrow> outcome" where
  "handleGameOver env conn msg s =
     (case clients s conn of
        None \<Rightarrow> (s, [], None)
      | Some clientInfo \<Rightarrow>
          if \<not> truthy (roomId clientInfo) then (s, [], None)
          else
            (case rooms s (roomId clientInfo) of
               None \<Rightarrow> (s, [], None)
             | Some room \<Rightarrow>
                 (case template (stack env) [playerId clientInfo] of
                    Some e \<Rightarrow> (s, [], Some e)
                  | None \<Rightarrow>
                      (case broadcastToRoom (readyState env) room
                              [(''type'', JStr ''game_over''),
                               (''playerId'', playerId clientInfo)] None of
                         (room', b) \<Rightarrow>
                           (s\<lparr>rooms := (rooms s)(roomId clientInfo \<mapsto> room')\<rparr>, [b], None)))))"

text \<open>
  The \<^verbatim>\<open>switch\<close> compares \<^verbatim>\<open>message.type\<close> with \<^verbatim>\<open>===\<close>, in the order of the source;
  the default branch builds a log line from \<^verbatim>\<open>message.type\<close>.
\<close>

definition handleMessage ::
  "environment \<Rightarrow> WebSocket \<Rightarrow> jsval \<Rightarrow> GameServer \<Rightarrow> outcome" where
  "handleMessage env conn msg s =
     (case clients s conn of
        None \<Rightarrow> (s, [], None)
      | Some clientInfo \<Rightarrow>
          (case getprop msg ''type'' of
             Inl e \<Rightarrow> (s, [], Some e)
           | Inr t \<Rightarrow>
               if t = JStr ''join_room''
               then handleJoinRoom env conn (get_field msg ''roomId'') (get_field msg ''playerId'') s
               else if t = JStr ''chat'' then handleChat env conn msg s
               else if t = JStr ''game_over'' then handleGameOver env conn msg s
               else if t = JStr ''action_complete'' then handleActionComplete env conn msg s
               else (s, [], template (stack env) [t])))"

text \<open>
  The \<^verbatim>\<open>message\<close> listener. \<open>frame\<close> is what \<^verbatim>\<open>JSON.parse(data.toString())\<close> made of
  the frame: a SyntaxError, or the decoded value. The \<^verbatim>\<open>try\<close> block holds both the
  decoding and the call of \<^verbatim>\<open>handleMessage\<close>, so the \<^verbatim>\<open>catch\<close> takes every error of
  either; what the handler did before it raised stays done.
\<close>

datatype frame = NotJSON | Decoded jsval

definition on_message ::
  "environment \<Rightarrow> WebSocket \<Rightarrow> frame \<Rightarrow> GameServer \<Rightarrow> outcome" where
  "on_message env conn fr s =
     (case fr of
        NotJSON \<Rightarrow> (s, [], None)
      | Decoded msg \<Rightarrow>
          (case handleMessage env conn msg s of (s', out, e) \<Rightarrow> (s', out, None)))"

definition handlePlayerDisconnect ::
  "environment \<Rightarrow> jsval \<Rightarrow> jsval \<Rightarrow> GameServer \<Rightarrow> outcome" where
  "handlePlayerDisconnect env rid disconnectedPlayerId s =
     (case rooms s rid of
        None \<Rightarrow> (s, [], template (stack env) [rid])
      | Some room \<Rightarrow>
          (case broadcastToRoom (readyState env) room
                  [(''type'', JStr ''disconnect''), (''playerId'', disconnectedPlayerId)] None of
             (room1, b) \<Rightarrow>
               let room2 = removePlayer room1 disconnectedPlayerId;
                   s1 = s\<lparr>rooms := (rooms s)(rid \<mapsto> room2)\<rparr>
               in (case template (stack env) [disconnectedPlayerId, rid] of
                     Some e \<Rightarrow> (s1, [b], Some e)
                   | None \<Rightarrow>
                       if getPlayerCount room2 = 0
                       then (s1\<lparr>rooms := (rooms s1)(rid := None)\<rparr>, [b],
                             template (stack env) [rid])
                       else (s1, [b], None))))"

text \<open>
  The \<^verbatim>\<open>close\<close> listener calls \<^verbatim>\<open>handleDisconnect\<close> outside any \<^verbatim>\<open>try\<close>: an error
  raised here leaves the listener. The close code and reason are only logged.
\<close>

definition handleDisconnect ::
  "environment \<Rightarrow> WebSocket \<Rightarrow> GameServer \<Rightarrow> outcome" where
  "handleDisconnect env conn s =
     (case clients s conn of
        None \<Rightarrow> (s, [], None)
      | Some clientInfo \<Rightarrow>
          (case template (stack env) [playerId clientInfo] of
             Some e \<Rightarrow> (s, [], Some e)
           | None \<Rightarrow>
               if truthy (roomId clientInfo) \<and> truthy (playerId clientInfo)
               then
                 (case template (stack env) [playerId clientInfo, roomId clientInfo] of
                    Some e \<Rightarrow> (s, [], Some e)
                  | None \<Rightarrow>
                      (case handlePlayerDisconnect env (roomId clientInfo)
                              (playerId clientInfo) s of
                         (s1, out, e) \<Rightarrow>
                           (case e of
                              Some err \<Rightarrow> (s1, out, Some err)
                            | None \<Rightarrow>
                                (s1\<lparr>clients := (clients s1)(conn := None)\<rparr>, out, None))))
               else (s\<lparr>clients := (clients s)(conn := None)\<rparr>, [], None)))"

definition sendMessage ::
  "(WebSocket \<Rightarrow> ready_state) \<Rightarrow> WebSocket \<Rightarrow> Message \<Rightarrow> (WebSocket \<times> json_text) list" where
  "sendMessage rs conn msg = (if rs conn = OPEN then [(conn, stringify_Message msg)] else [])"

subsection \<open>Events\<close>

text \<open>
  The transport delivers one event at a time and each listener runs to completion.
  An event comes with the environment of that moment.
\<close>

datatype event =
    Connection WebSocket string
  | Message_event WebSocket frame
  | Close WebSocket

definition step :: "environment \<Rightarrow> event \<Rightarrow> GameServer \<Rightarrow> outcome" where
  "step env ev s =
     (case ev of
        Connection conn cid \<Rightarrow> (on_connection conn cid s, [], None)
      | Message_event conn fr \<Rightarrow> on_message env conn fr s
      | Close conn \<Rightarrow> handleDisconnect env conn s)"

text \<open>
  A run of the server: the events in order, the broadcasts concatenated. An error
  that leaves a listener is uncaught and ends the run there.
\<close>

fun run :: "(environment \<times> event) list \<Rightarrow> GameServer \<Rightarrow> outcome" where
  "run [] s = (s, [], None)"
| "run ((env, ev) # evs) s =
     (case step env ev s of
        (s', out, Some err) \<Rightarrow> (s', out, Some err)
      | (s', out, None) \<Rightarrow>
          (case run evs s' of (s'', out', e) \<Rightarrow> (s'', out @ out', e)))"

fun is_Close :: "event \<Rightarrow> bool" where
  "is_Close (Close conn) = True"
| "is_Close ev = False"

definition join_room :: "jsval \<Rightarrow> jsval \<Rightarrow> frame" where
  "join_room rid pid =
     Decoded (JObj 0 [(''type'', JStr ''join_room''), (''roomId'', rid), (''playerId'', pid)])"

definition memberCount :: "GameServer \<Rightarrow> jsval \<Rightarrow> nat" where
  "memberCount s rid = (case rooms s rid of None \<Rightarrow> 0 | Some room \<Rightarrow> getPlayerCount room)"

subsection \<open>What the properties speak about\<close>

text \<open>The \<^verbatim>\<open>game_started\<close> broadcasts of room \<open>rid\<close> in a trace.\<close>

definition game_started_count :: "jsval \<Rightarrow> broadcast_call list \<Rightarrow> nat" where
  "game_started_count rid out =
     length (filter (\<lambda>b. of_room b = rid \<and> message b = [(''type'', JStr ''game_started'')]) out)"

text \<open>Every room of the table is stored under its own \<^verbatim>\<open>id\<close>.\<close>

definition room_ids_ok :: "GameServer \<Rightarrow> bool" where
  "room_ids_ok s = (\<forall>rid room. rooms s rid = Some room \<longrightarrow> id_GameRoom room = rid)"

text \<open>
  \<^verbatim>\<open>ClientInfo.playerId\<close> is \<^verbatim>\<open>null\<close> or a value a join stored, never \<^verbatim>\<open>undefined\<close>.
\<close>

definition playerIds_defined :: "GameServer \<Rightarrow> bool" where
  "playerIds_defined s = (\<forall>conn ci. clients s conn = Some ci \<longrightarrow> playerId ci \<noteq> Undefined)"

text \<open>
  The property names of the object a receiver gets from a message: the message
  serialized as \<^verbatim>\<open>broadcastToRoom\<close> does, then parsed at heap address \<open>n\<close>.
\<close>

definition wire_keys :: "nat \<Rightarrow> Message \<Rightarrow> string set" where
  "wire_keys n m = set (own_keys (fst (JSON_parse n (stringify_Message m))))"

text \<open>
  The values that handling a decoded message puts into log lines, in a given state,
  on the path the message takes: the \<^verbatim>\<open>playerId\<close> and \<^verbatim>\<open>roomId\<close> of a \<^verbatim>\<open>join_room\<close>
  that carries both; the \<^verbatim>\<open>displayName\<close>, the sender's recorded \<^verbatim>\<open>playerId\<close> and the
  \<^verbatim>\<open>message\<close> of a \<^verbatim>\<open>chat\<close> from a sender whose room exists; the recorded
  \<^verbatim>\<open>playerId\<close> of a \<^verbatim>\<open>game_over\<close> or \<^verbatim>\<open>action_complete\<close> from such a sender; the
  \<^verbatim>\<open>type\<close> of a message of any other type; none where the handler returns before
  its log line or the sender is not registered.
\<close>

definition log_values :: "GameServer \<Rightarrow> WebSocket \<Rightarrow> jsval \<Rightarrow> jsval list" where
  "log_values s conn msg =
     (case clients s conn of
        None \<Rightarrow> []
      | Some clientInfo \<Rightarrow>
          let t = get_field msg ''type'';
              in_room = (truthy (roomId clientInfo) \<and> rooms s (roomId clientInfo) \<noteq> None)
          in if t = JStr ''join_room''
             then (if truthy (get_field msg ''roomId'') \<and> truthy (get_field msg ''playerId'')
                   then [get_field msg ''playerId'', get_field msg ''roomId''] else [])
             else if t = JStr ''chat''
             then (if in_room
                   then [get_field msg ''displayName'', playerId clientInfo,
                         get_field msg ''message''] else [])
             else if t = JStr ''game_over'' \<or> t = JStr ''action_complete''
             then (if in_room then [playerId clientInfo] else [])
             else [t])"

subsection \<open>Example states\<close>

text \<open>
  Every channel open, or every channel but one; the stack has room for conversions
  nested 1000 deep.
\<close>

definition all_open :: environment where
  "all_open = \<lparr>readyState = (\<lambda>conn. OPEN), stack = 1000\<rparr>"

definition closed_only :: "WebSocket \<Rightarrow> environment" where
  "closed_only c = \<lparr>readyState = (\<lambda>conn. if conn = c then CLOSED else OPEN), stack = 1000\<rparr>"

text \<open>An engine whose stack has room for two nested conversions only.\<close>

definition tight_stack :: environment where
  "tight_stack = \<lparr>readyState = (\<lambda>conn. OPEN), stack = 2\<rparr>"

text \<open>The array \<^verbatim>\<open>[[...[]...]]\<close> with \<open>n\<close> arrays around the innermost one.\<close>

fun nested_array :: "nat \<Rightarrow> jsval" where
  "nested_array 0 = JArr 0 []"
| "nested_array (Suc n) = JArr 0 [nested_array n]"

text \<open>Connection 1 waits in room \<^verbatim>\<open>r1\<close> as \<^verbatim>\<open>p1\<close>; connection 2 has not joined.\<close>

definition lobby :: GameServer where
  "lobby = fst (run
     [(all_open, Connection 1 ''c1''),
      (all_open, Connection 2 ''c2''),
      (all_open, Message_event 1 (join_room (JStr ''r1'') (JStr ''p1'')))] new_GameServer)"

text \<open>Then connection 2 joins \<^verbatim>\<open>r1\<close> as \<^verbatim>\<open>p2\<close>.\<close>

definition full_room :: GameServer where
  "full_room = fst (run
     [(all_open, Message_event 2 (join_room (JStr ''r1'') (JStr ''p2'')))] lobby)"

section \<open>Basic facts\<close>

lemma foldl_sends:
  "foldl (\<lambda>(this, out) (k, player). if C player then (this, out @ [g player]) else (this, out))
     (room, acc) ps
   = (room, acc @ map (\<lambda>(k, player). g player) (filter (\<lambda>(k, player). C player) ps))"
  by (induction ps arbitrary: acc) (auto split: prod.splits)

lemma broadcastToRoom_eq:
  "broadcastToRoom rs room msg excludeWs =
     (room, \<lparr>of_room = id_GameRoom room, message = msg,
             sent = map (\<lambda>(k, player). (ws player, stringify_Message msg))
                      (filter (\<lambda>(k, player). Some (ws player) \<noteq> excludeWs \<and> rs (ws player) = OPEN)
                         (players room))\<rparr>)"
  unfolding broadcastToRoom_def by (simp add: foldl_sends)

lemma Map_delete_empty: "(Map_delete k m = []) = (fst ` set m \<subseteq> {k})"
  by (auto simp: Map_delete_def filter_empty_conv)

lemma Map_has_set: "Map_has k' (Map_set k v m) = (k' = k \<or> Map_has k' m)"
  by (induction m) (auto simp: Map_has_def)

lemma Map_has_delete: "Map_has k' (Map_delete k m) = (k' \<noteq> k \<and> Map_has k' m)"
  by (auto simp: Map_has_def Map_delete_def)

lemma length_Map_set: "length (Map_set k v m) = (if Map_has k m then length m else Suc (length m))"
  by (induction m) (auto simp: Map_has_def)

lemma Map_set_new: "\<not> Map_has k m \<Longrightarrow> Map_set k v m = m @ [(k, v)]"
  by (induction m) (auto simp: Map_has_def)

lemma length_Map_delete: "length (Map_delete k m) \<le> length m"
  by (simp add: Map_delete_def)

lemma map_of_Map_set: "map_of (Map_set k v m) = (map_of m)(k \<mapsto> v)"
  by (induction m) (auto simp: fun_eq_iff)

lemma keys_Map_set: "fst ` set (Map_set k v m) = insert k (fst ` set m)"
  by (induction m) auto

lemma first_error_None: "(first_error es = None) = (\<forall>e \<in> set es. e = None)"
  by (induction es rule: first_error.induct) auto

lemma template_None: "(template d vs = None) = (\<forall>v \<in> set vs. ToString d v = None)"
  by (auto simp: template_def first_error_None)

lemma template_Nil: "template d [] = None"
  by (simp add: template_def)

lemma ToString_primitive: "primitive v \<Longrightarrow> ToString d v = None"
  by (cases v) simp_all

lemma template_primitive: "\<forall>v \<in> set vs. primitive v \<Longrightarrow> template d vs = None"
  by (simp add: template_None ToString_primitive)

text \<open>
  An array nested deeper than the stack has room for does not convert, whatever
  the room is; a shallower one does.
\<close>

lemma ToString_nested_array:
  "ToString d (nested_array n) = (if n < d then None else Some RangeError)"
proof (induction n arbitrary: d)
  case 0
  then show ?case by simp
next
  case (Suc n)
  show ?case
  proof (cases d)
    case 0
    then show ?thesis by simp
  next
    case (Suc d')
    then show ?thesis using Suc.IH [of d'] by simp
  qed
qed

text \<open>The example states, computed.\<close>

lemmas eval_defs =
  step_def on_message_def handleMessage_def handleJoinRoom_def handleChat_def
  handleActionComplete_def handleGameOver_def handleDisconnect_def handlePlayerDisconnect_def
  on_connection_def getprop_def join_room_def new_GameServer_def new_GameRoom_def
  addPlayer_def removePlayer_def hasPlayer_def Map_has_def Map_delete_def getPlayerCount_def
  template_def broadcastToRoom_eq memberCount_def Let_def all_open_def closed_only_def
  tight_stack_def

lemma lobby_eq:
  "lobby = \<lparr>rooms = [JStr ''r1'' \<mapsto> \<lparr>id_GameRoom = JStr ''r1'',
                 players = [(JStr ''p1'', \<lparr>ws = 1, clientId = ''c1''\<rparr>)],
                 playerIds = [JStr ''p1'']\<rparr>],
             clients = [1 \<mapsto> \<lparr>id_ClientInfo = ''c1'', roomId = JStr ''r1'', playerId = JStr ''p1''\<rparr>,
                        2 \<mapsto> \<lparr>id_ClientInfo = ''c2'', roomId = JNull, playerId = JNull\<rparr>]\<rparr>"
  unfolding lobby_def by (simp add: eval_defs fun_upd_twist)

lemma full_room_eq:
  "full_room = \<lparr>rooms = [JStr ''r1'' \<mapsto> \<lparr>id_GameRoom = JStr ''r1'',
                 players = [(JStr ''p1'', \<lparr>ws = 1, clientId = ''c1''\<rparr>),
                            (JStr ''p2'', \<lparr>ws = 2, clientId = ''c2''\<rparr>)],
                 playerIds = [JStr ''p1'', JStr ''p2'']\<rparr>],
             clients = [1 \<mapsto> \<lparr>id_ClientInfo = ''c1'', roomId = JStr ''r1'', playerId = JStr ''p1''\<rparr>,
                        2 \<mapsto> \<lparr>id_ClientInfo = ''c2'', roomId = JStr ''r1'', playerId = JStr ''p2''\<rparr>]\<rparr>"
  unfolding full_room_def lobby_eq by (simp add: eval_defs)

section \<open>Broadcast\<close>


section \<open>Events that change nothing\<close>

text \<open>
  Claim C7. When the sender's \<^verbatim>\<open>ClientInfo\<close> is absent, or its \<^verbatim>\<open>roomId\<close> is unset
  (\<^verbatim>\<open>null\<close>), each of \<^verbatim>\<open>handleChat\<close>, \<^verbatim>\<open>handleActionComplete\<close> and
  \<^verbatim>\<open>handleGameOver\<close>, and the listener handling a decoded \<^verbatim>\<open>chat\<close>,
  \<^verbatim>\<open>action_complete\<close> or \<^verbatim>\<open>game_over\<close> message, makes no broadcast and leaves the
  whole server state, registry and room table, as it was.
\<close>

theorem relay_outside_room_is_noop:
  assumes "clients s conn = None \<or> (\<exists>ci. clients s conn = Some ci \<and> roomId ci = JNull)"
  shows "handleChat env conn msg s = (s, [], None) \<and>
         handleActionComplete env conn msg s = (s, [], None) \<and>
         handleGameOver env conn msg s = (s, [], None) \<and>
         (get_field msg ''type'' \<in> {JStr ''chat'', JStr ''action_complete'', JStr ''game_over''}
          \<longrightarrow> on_message env conn (Decoded msg) s = (s, [], None))"
proof -
  have h: "handleChat env conn msg s = (s, [], None)"
    "handleActionComplete env conn msg s = (s, [], None)"
    "handleGameOver env conn msg s = (s, [], None)"
    using assms
    by (auto simp: handleChat_def handleActionComplete_def handleGameOver_def
        split: option.splits)
  have "on_message env conn (Decoded msg) s = (s, [], None)"
    if "get_field msg ''type'' \<in> {JStr ''chat'', JStr ''action_complete'', JStr ''game_over''}"
  proof -
    have "\<not> nullish msg" using that by (cases msg) auto
    then show ?thesis
      using that h
      by (auto simp: on_message_def handleMessage_def getprop_def split: option.splits)
  qed
  with h show ?thesis by blast
qed

theorem relay_outside_room_is_noop_witness:
  "clients lobby 2 = Some \<lparr>id_ClientInfo = ''c2'', roomId = JNull, playerId = JNull\<rparr> \<and>
   on_message all_open 2
     (Decoded (JObj 0 [(''type'', JStr ''chat''), (''displayName'', JStr ''Al''),
                       (''message'', JStr ''hi'')]))
     lobby = (lobby, [], None)"
  using relay_outside_room_is_noop
    [where s = lobby and conn = 2 and env = all_open and
       msg = "JObj 0 [(''type'', JStr ''chat''), (''displayName'', JStr ''Al''),
                      (''message'', JStr ''hi'')]"]
  by (simp add: lobby_eq)

text \<open>
  Claim C8. A \<^verbatim>\<open>join_room\<close> whose \<^verbatim>\<open>roomId\<close> or \<^verbatim>\<open>playerId\<close> is falsy, which covers
  the empty string and a missing field (\<^verbatim>\<open>undefined\<close>), is dropped by the handler
  and by the listener that calls it: no room is created, no \<^verbatim>\<open>ClientInfo\<close> is
  touched (the state is the one before), and nothing is broadcast.
\<close>

theorem join_without_ids_is_noop:
  assumes "\<not> truthy rid \<or> \<not> truthy pid"
  shows "handleJoinRoom env conn rid pid s = (s, [], None) \<and>
         (get_field msg ''type'' = JStr ''join_room'' \<and> get_field msg ''roomId'' = rid \<and>
          get_field msg ''playerId'' = pid
          \<longrightarrow> on_message env conn (Decoded msg) s = (s, [], None))"
proof -
  have h: "handleJoinRoom env conn rid pid s = (s, [], None)"
    using assms by (auto simp: handleJoinRoom_def split: option.splits)
  have "on_message env conn (Decoded msg) s = (s, [], None)"
    if "get_field msg ''type'' = JStr ''join_room''" "get_field msg ''roomId'' = rid"
      "get_field msg ''playerId'' = pid"
  proof -
    have "\<not> nullish msg" using that(1) by (cases msg) auto
    then show ?thesis
      using that h by (simp add: on_message_def handleMessage_def getprop_def split: option.splits)
  qed
  with h show ?thesis by blast
qed

theorem join_without_ids_is_noop_witness:
  "\<not> truthy (JStr '''') \<and> \<not> truthy Undefined \<and>
   handleJoinRoom all_open 2 (JStr '''') (JStr ''p2'') lobby = (lobby, [], None) \<and>
   on_message all_open 2 (Decoded (JObj 0 [(''type'', JStr ''join_room''), (''roomId'', JStr ''r1'')]))
     lobby = (lobby, [], None)"
  using join_without_ids_is_noop
      [where rid = "JStr ''''" and pid = "JStr ''p2''" and env = all_open and conn = 2 and s = lobby]
    join_without_ids_is_noop
      [where rid = "JStr ''r1''" and pid = Undefined and env = all_open and conn = 2 and s = lobby
         and msg = "JObj 0 [(''type'', JStr ''join_room''), (''roomId'', JStr ''r1'')]"]
  by simp

text \<open>
  Claim C4. In a state where room \<open>rid\<close> has a member \<open>pid\<close>, a further \<^verbatim>\<open>join_room\<close>
  with the same \<open>rid\<close> and \<open>pid\<close>, from any connection, leaves the server state as it
  was (the room's members and every \<^verbatim>\<open>ClientInfo\<close>, so those of the first joiner
  and of the sender) and makes no broadcast.
\<close>

theorem rejoin_is_noop:
  assumes "rooms s rid = Some room" and "hasPlayer room pid"
  shows "fst (handleJoinRoom env conn rid pid s) = s \<and>
         fst (snd (handleJoinRoom env conn rid pid s)) = [] \<and>
         (get_field msg ''type'' = JStr ''join_room'' \<and> get_field msg ''roomId'' = rid \<and>
          get_field msg ''playerId'' = pid
          \<longrightarrow> on_message env conn (Decoded msg) s = (s, [], None))"
proof -
  have h: "fst (handleJoinRoom env conn rid pid s) = s \<and>
      fst (snd (handleJoinRoom env conn rid pid s)) = []"
    using assms by (simp add: handleJoinRoom_def Let_def split: option.splits)
  have "on_message env conn (Decoded msg) s = (s, [], None)"
    if "get_field msg ''type'' = JStr ''join_room''" "get_field msg ''roomId'' = rid"
      "get_field msg ''playerId'' = pid"
  proof -
    have "\<not> nullish msg" using that(1) by (cases msg) auto
    then show ?thesis
      using that h
      by (auto simp: on_message_def handleMessage_def getprop_def split: option.splits prod.splits)
  qed
  with h show ?thesis by blast
qed

theorem rejoin_is_noop_witness:
  "hasPlayer \<lparr>id_GameRoom = JStr ''r1'',
              players = [(JStr ''p1'', \<lparr>ws = 1, clientId = ''c1''\<rparr>)],
              playerIds = [JStr ''p1'']\<rparr> (JStr ''p1'') \<and>
   on_message all_open 2 (join_room (JStr ''r1'') (JStr ''p1'')) lobby = (lobby, [], None) \<and>
   on_message all_open 1 (join_room (JStr ''r1'') (JStr ''p1'')) lobby = (lobby, [], None)"
  using rejoin_is_noop
      [where s = lobby and rid = "JStr ''r1''" and pid = "JStr ''p1''" and env = all_open
         and conn = 2 and msg = "JObj 0 [(''type'', JStr ''join_room''), (''roomId'', JStr ''r1''),
                                        (''playerId'', JStr ''p1'')]"]
    rejoin_is_noop
      [where s = lobby and rid = "JStr ''r1''" and pid = "JStr ''p1''" and env = all_open
         and conn = 1 and msg = "JObj 0 [(''type'', JStr ''join_room''), (''roomId'', JStr ''r1''),
                                        (''playerId'', JStr ''p1'')]"]
  by (simp add: lobby_eq join_room_def hasPlayer_def Map_has_def)

section \<open>Disconnect\<close>

lemma handleDisconnect_in_room:
  assumes "clients s conn = Some ci"
    and "truthy (roomId ci)" and "truthy (playerId ci)"
    and "primitive (roomId ci)" and "primitive (playerId ci)"
  shows "handleDisconnect env conn s =
         (case rooms s (roomId ci) of
            None \<Rightarrow> (s\<lparr>clients := (clients s)(conn := None)\<rparr>, [], None)
          | Some room \<Rightarrow>
             (s\<lparr>rooms := (rooms s)(roomId ci :=
                   (if fst ` set (players room) \<subseteq> {playerId ci} then None
                    else Some (removePlayer room (playerId ci)))),
                 clients := (clients s)(conn := None)\<rparr>,
              [snd (broadcastToRoom (readyState env) room
                     [(''type'', JStr ''disconnect''), (''playerId'', playerId ci)] None)],
              None))"
proof -
  have t: "template (stack env) [playerId ci] = None" "template (stack env) [roomId ci] = None"
    "template (stack env) [playerId ci, roomId ci] = None"
    using assms(4,5) by (simp_all add: template_primitive)
  show ?thesis
    using assms t
    by (auto simp: handleDisconnect_def handlePlayerDisconnect_def
        broadcastToRoom_eq Let_def getPlayerCount_def removePlayer_def Map_delete_empty
        split: option.splits)
qed

text \<open>
  Claim C3 does not hold of the code. \<^verbatim>\<open>handleDisconnect\<close> starts by building a log
  line from \<^verbatim>\<open>clientInfo.playerId\<close>, and the \<^verbatim>\<open>close\<close> listener calls it outside any
  \<^verbatim>\<open>try\<close> (the \<^verbatim>\<open>message\<close> listener has one). A client joins \<^verbatim>\<open>r1\<close> with the
  \<^verbatim>\<open>playerId\<close> \<^verbatim>\<open>{"toString": 1}\<close>: the join is done before the handler's last log line
  raises, and the \<^verbatim>\<open>message\<close> listener catches that. Then its channel closes: the
  first log line of \<^verbatim>\<open>handleDisconnect\<close> raises a TypeError that nothing catches.
  No \<^verbatim>\<open>disconnect\<close> is broadcast, the room keeps the member, and the registry keeps
  the connection, where the claim says that the registry no longer contains it.
\<close>

theorem disconnect_raises_before_cleanup:
  "run [(all_open, Connection 1 ''c1''),
        (all_open, Message_event 1 (join_room (JStr ''r1'') (JObj 7 [(''toString'', JNum 1)]))),
        (closed_only 1, Close 1)] new_GameServer =
   (\<lparr>rooms = [JStr ''r1'' \<mapsto> \<lparr>id_GameRoom = JStr ''r1'',
                 players = [(JObj 7 [(''toString'', JNum 1)], \<lparr>ws = 1, clientId = ''c1''\<rparr>)],
                 playerIds = [JObj 7 [(''toString'', JNum 1)]]\<rparr>],
      clients = [1 \<mapsto> \<lparr>id_ClientInfo = ''c1'', roomId = JStr ''r1'',
                          playerId = JObj 7 [(''toString'', JNum 1)]\<rparr>]\<rparr>,
    [], Some TypeError)"
  by (simp add: eval_defs)

text \<open>
  The same happens, with a RangeError, for a \<^verbatim>\<open>playerId\<close> that is an array nested
  deeper than the stack has room for.
\<close>

lemma disconnect_raises_on_deep_array:
  "snd (snd (run [(tight_stack, Connection 1 ''c1''),
        (tight_stack, Message_event 1 (join_room (JStr ''r1'') (nested_array 2))),
        (tight_stack, Close 1)] new_GameServer)) = Some RangeError \<and>
   clients (fst (run [(tight_stack, Connection 1 ''c1''),
        (tight_stack, Message_event 1 (join_room (JStr ''r1'') (nested_array 2))),
        (tight_stack, Close 1)] new_GameServer)) 1 \<noteq> None"
  by (simp add: eval_defs numeral_2_eq_2)

text \<open>
  For ids that are non-empty strings, as the wire format has them, the disconnect
  does what the claim says: \<^verbatim>\<open>handleDisconnect\<close> completes; the registry no longer
  holds the connection; if the room exists, one \<^verbatim>\<open>disconnect\<close> message with the
  \<^verbatim>\<open>playerId\<close> is sent to the members the room had before the removal whose channel
  is open; the room is deleted when it had no other member, and otherwise keeps
  every other member, in order.
\<close>

lemma disconnect_with_string_ids:
  assumes "clients s conn = Some ci"
    and "roomId ci = JStr r" and "r \<noteq> []" and "playerId ci = JStr p" and "p \<noteq> []"
  shows "handleDisconnect env conn s =
         (case rooms s (JStr r) of
            None \<Rightarrow> (s\<lparr>clients := (clients s)(conn := None)\<rparr>, [], None)
          | Some room \<Rightarrow>
             (s\<lparr>rooms := (rooms s)(JStr r :=
                   (if fst ` set (players room) \<subseteq> {JStr p} then None
                    else Some (room\<lparr>players := filter (\<lambda>(k, player). k \<noteq> JStr p) (players room),
                                    playerIds := remove1 (JStr p) (playerIds room)\<rparr>))),
                 clients := (clients s)(conn := None)\<rparr>,
              [\<lparr>of_room = id_GameRoom room,
                message = [(''type'', JStr ''disconnect''), (''playerId'', JStr p)],
                sent = map (\<lambda>(k, player). (ws player,
                              TObj [(''type'', TStr ''disconnect''), (''playerId'', TStr p)]))
                         (filter (\<lambda>(k, player). readyState env (ws player) = OPEN)
                            (players room))\<rparr>],
              None))"
proof -
  have "primitive (roomId ci)" "primitive (playerId ci)" "truthy (roomId ci)" "truthy (playerId ci)"
    using assms by simp_all
  moreover have "filter (\<lambda>q. fst q \<noteq> JStr p) m = filter (\<lambda>(k, player). k \<noteq> JStr p) m"
    for m :: "(jsval \<times> Player) list"
    by (simp add: case_prod_unfold)
  ultimately show ?thesis
    using handleDisconnect_in_room [OF assms(1), of env] assms
    by (simp add: broadcastToRoom_eq removePlayer_def Map_delete_def stringify_Message_def
        split: option.splits)
qed

section \<open>Joining\<close>

lemma handleJoinRoom_new_member:
  assumes "clients s conn = Some ci"
    and "truthy rid" and "truthy pid"
    and "template (stack env) [pid, rid] = None"
    and "\<forall>room. rooms s rid = Some room \<longrightarrow> \<not> hasPlayer room pid"
  shows "handleJoinRoom env conn rid pid s =
         (s\<lparr>rooms := (rooms s)(rid \<mapsto>
               fst (addPlayer (readyState env)
                      (case rooms s rid of None \<Rightarrow> new_GameRoom rid | Some room \<Rightarrow> room)
                      conn (id_ClientInfo ci) pid)),
             clients := (clients s)(conn \<mapsto> ci\<lparr>roomId := rid, playerId := pid\<rparr>)\<rparr>,
          snd (addPlayer (readyState env)
                 (case rooms s rid of None \<Rightarrow> new_GameRoom rid | Some room \<Rightarrow> room)
                 conn (id_ClientInfo ci) pid),
          None)"
proof -
  have t: "template (stack env) [rid] = None"
    using assms(4) by (simp add: template_None)
  show ?thesis
    using assms t
    by (auto simp: handleJoinRoom_def Let_def hasPlayer_def Map_has_def
        new_GameRoom_def split: option.splits prod.splits)
qed

lemma players_addPlayer:
  "players (fst (addPlayer rs room conn cid pid)) =
     Map_set pid \<lparr>ws = conn, clientId = cid\<rparr> (players room)"
  by (simp add: addPlayer_def Let_def broadcastToRoom_eq)

text \<open>
  Claim C10. A connection whose \<^verbatim>\<open>ClientInfo\<close> names room \<open>old_rid\<close>, where it has a member
  entry, sends a valid \<^verbatim>\<open>join_room\<close> (non-empty strings) for another room \<open>new_rid\<close> with
  a \<^verbatim>\<open>playerId\<close> that \<open>new_rid\<close> does not hold. The join succeeds: \<open>new_rid\<close> gets a member
  entry for the connection, \<^verbatim>\<open>ClientInfo.roomId\<close> and \<^verbatim>\<open>playerId\<close> are overwritten, and
  room \<open>old_rid\<close> is left as it was, so the connection is a member of both rooms. A
  disconnect that follows removes the connection from the registry and from
  \<open>new_rid\<close> only: room \<open>old_rid\<close> still holds the stale entry.
\<close>

theorem join_second_room_leaves_stale_member:
  assumes "clients s conn = Some ci" and "roomId ci = old_rid" and "truthy old_rid"
    and "rooms s old_rid = Some old_room" and "(old_pid, old_player) \<in> set (players old_room)"
    and "ws old_player = conn"
    and "new_rid = JStr x" and "x \<noteq> []" and "pid = JStr y" and "y \<noteq> []" and "new_rid \<noteq> old_rid"
    and "\<forall>new_room. rooms s new_rid = Some new_room \<longrightarrow> \<not> hasPlayer new_room pid"
    and "get_field msg ''type'' = JStr ''join_room''"
    and "get_field msg ''roomId'' = new_rid" and "get_field msg ''playerId'' = pid"
    and "step env (Message_event conn (Decoded msg)) s = (s', out, e)"
    and "step env' (Close conn) s' = (s'', out', e')"
  shows "e = None \<and>
         clients s' conn = Some (ci\<lparr>roomId := new_rid, playerId := pid\<rparr>) \<and>
         rooms s' old_rid = Some old_room \<and>
         (\<exists>room_joined. rooms s' new_rid = Some room_joined \<and>
            map_of (players room_joined) pid = Some \<lparr>ws = conn, clientId = id_ClientInfo ci\<rparr>) \<and>
         e' = None \<and>
         clients s'' conn = None \<and>
         rooms s'' old_rid = Some old_room \<and>
         (old_pid, old_player) \<in> set (players (the (rooms s'' old_rid))) \<and>
         (\<forall>room_after. rooms s'' new_rid = Some room_after \<longrightarrow> \<not> hasPlayer room_after pid)"
proof -
  have strs: "truthy new_rid" "truthy pid"
    using assms(7-10) by simp_all
  have conv: "template d [pid, new_rid] = None" for d
    using assms(7,9) by (simp add: template_def)
  let ?room = "case rooms s new_rid of None \<Rightarrow> new_GameRoom new_rid | Some room \<Rightarrow> room"
  let ?room2 = "fst (addPlayer (readyState env) ?room conn (id_ClientInfo ci) pid)"
  let ?ci = "ci\<lparr>roomId := new_rid, playerId := pid\<rparr>"
  have join: "handleJoinRoom env conn new_rid pid s =
      (s\<lparr>rooms := (rooms s)(new_rid \<mapsto> ?room2), clients := (clients s)(conn \<mapsto> ?ci)\<rparr>,
       snd (addPlayer (readyState env) ?room conn (id_ClientInfo ci) pid), None)"
    by (rule handleJoinRoom_new_member [OF assms(1) strs conv assms(12)])
  moreover have "\<not> nullish msg" using assms(13) by (cases msg) auto
  ultimately have "step env (Message_event conn (Decoded msg)) s =
      (s\<lparr>rooms := (rooms s)(new_rid \<mapsto> ?room2), clients := (clients s)(conn \<mapsto> ?ci)\<rparr>,
       snd (addPlayer (readyState env) ?room conn (id_ClientInfo ci) pid), None)"
    using assms(1,13-15) by (simp add: step_def on_message_def handleMessage_def getprop_def)
  with assms(16) have s': "s' = s\<lparr>rooms := (rooms s)(new_rid \<mapsto> ?room2),
      clients := (clients s)(conn \<mapsto> ?ci)\<rparr>" and e: "e = None"
    by simp_all
  have c': "clients s' conn = Some ?ci" by (simp add: s')
  have old_rid': "rooms s' old_rid = Some old_room" using assms(4,11) by (simp add: s')
  have new_rid': "rooms s' new_rid = Some ?room2" by (simp add: s')
  have entry: "map_of (players ?room2) pid = Some \<lparr>ws = conn, clientId = id_ClientInfo ci\<rparr>"
    by (simp add: players_addPlayer map_of_Map_set)
  have disc: "handleDisconnect env' conn s' =
      (s'\<lparr>rooms := (rooms s')(new_rid :=
            (if fst ` set (players ?room2) \<subseteq> {pid} then None
             else Some (removePlayer ?room2 pid))),
          clients := (clients s')(conn := None)\<rparr>,
       [snd (broadcastToRoom (readyState env') ?room2
              [(''type'', JStr ''disconnect''), (''playerId'', pid)] None)],
       None)"
    using handleDisconnect_in_room [OF c', of env'] strs assms(7,9) new_rid' by simp
  then have "step env' (Close conn) s' =
      (s'\<lparr>rooms := (rooms s')(new_rid :=
            (if fst ` set (players ?room2) \<subseteq> {pid} then None
             else Some (removePlayer ?room2 pid))),
          clients := (clients s')(conn := None)\<rparr>,
       [snd (broadcastToRoom (readyState env') ?room2
              [(''type'', JStr ''disconnect''), (''playerId'', pid)] None)],
       None)"
    by (simp add: step_def)
  with assms(17) have s'': "s'' = s'\<lparr>rooms := (rooms s')(new_rid :=
            (if fst ` set (players ?room2) \<subseteq> {pid} then None
             else Some (removePlayer ?room2 pid))),
          clients := (clients s')(conn := None)\<rparr>" and e': "e' = None"
    by simp_all
  have c'': "clients s'' conn = None" by (simp add: s'')
  have old_rid'': "rooms s'' old_rid = Some old_room" using old_rid' assms(11) by (simp add: s'')
  have gone: "\<not> hasPlayer room_after pid" if "rooms s'' new_rid = Some room_after" for room_after
    using that
    by (auto simp: s'' hasPlayer_def removePlayer_def Map_has_delete split: if_splits)
  show ?thesis
    using e c' old_rid' new_rid' entry e' c'' old_rid'' gone assms(5) by auto
qed

theorem join_second_room_leaves_stale_member_witness:
  "step all_open (Message_event 1 (join_room (JStr ''r2'') (JStr ''p9''))) lobby =
     (lobby\<lparr>rooms := (rooms lobby)(JStr ''r2'' \<mapsto>
               \<lparr>id_GameRoom = JStr ''r2'',
                players = [(JStr ''p9'', \<lparr>ws = 1, clientId = ''c1''\<rparr>)],
                playerIds = [JStr ''p9'']\<rparr>),
             clients := (clients lobby)(1 \<mapsto>
               \<lparr>id_ClientInfo = ''c1'', roomId = JStr ''r2'', playerId = JStr ''p9''\<rparr>)\<rparr>,
      [], None) \<and>
   rooms (fst (step (closed_only 1) (Close 1)
            (fst (step all_open (Message_event 1 (join_room (JStr ''r2'') (JStr ''p9''))) lobby))))
       (JStr ''r1'') =
     Some \<lparr>id_GameRoom = JStr ''r1'',
           players = [(JStr ''p1'', \<lparr>ws = 1, clientId = ''c1''\<rparr>)],
           playerIds = [JStr ''p1'']\<rparr> \<and>
   rooms (fst (step (closed_only 1) (Close 1)
            (fst (step all_open (Message_event 1 (join_room (JStr ''r2'') (JStr ''p9''))) lobby))))
       (JStr ''r2'') = None \<and>
   clients (fst (step (closed_only 1) (Close 1)
            (fst (step all_open (Message_event 1 (join_room (JStr ''r2'') (JStr ''p9''))) lobby))))
       1 = None"
  using join_second_room_leaves_stale_member
    [where s = lobby and conn = 1 and old_rid = "JStr ''r1''" and new_rid = "JStr ''r2''"
       and pid = "JStr ''p9''" and x = "''r2''" and y = "''p9''"
       and ci = "\<lparr>id_ClientInfo = ''c1'', roomId = JStr ''r1'', playerId = JStr ''p1''\<rparr>"
       and old_room = "\<lparr>id_GameRoom = JStr ''r1'',
                      players = [(JStr ''p1'', \<lparr>ws = 1, clientId = ''c1''\<rparr>)],
                      playerIds = [JStr ''p1'']\<rparr>"
       and old_pid = "JStr ''p1''" and old_player = "\<lparr>ws = 1, clientId = ''c1''\<rparr>"
       and env = all_open and env' = "closed_only 1"
       and msg = "JObj 0 [(''type'', JStr ''join_room''), (''roomId'', JStr ''r2''),
                          (''playerId'', JStr ''p9'')]"
       and s' = "fst (step all_open (Message_event 1 (join_room (JStr ''r2'') (JStr ''p9''))) lobby)"
       and out = "fst (snd (step all_open (Message_event 1 (join_room (JStr ''r2'') (JStr ''p9''))) lobby))"
       and e = "snd (snd (step all_open (Message_event 1 (join_room (JStr ''r2'') (JStr ''p9''))) lobby))"
       and s'' = "fst (step (closed_only 1) (Close 1)
            (fst (step all_open (Message_event 1 (join_room (JStr ''r2'') (JStr ''p9''))) lobby)))"
       and out' = "fst (snd (step (closed_only 1) (Close 1)
            (fst (step all_open (Message_event 1 (join_room (JStr ''r2'') (JStr ''p9''))) lobby))))"
       and e' = "snd (snd (step (closed_only 1) (Close 1)
            (fst (step all_open (Message_event 1 (join_room (JStr ''r2'') (JStr ''p9''))) lobby))))"]
  by (simp add: lobby_eq eval_defs)

section \<open>Errors while a frame is handled\<close>

lemma template_Cons_fails: "template d [v] \<noteq> None \<Longrightarrow> template d [w, v] \<noteq> None"
  by (simp add: template_None)

lemma handleJoinRoom_raises:
  "(snd (snd (handleJoinRoom env conn rid pid s)) = None) =
   (clients s conn = None \<or> \<not> (truthy rid \<and> truthy pid) \<or>
    template (stack env) [pid, rid] = None)"
proof (cases "clients s conn")
  case None
  then show ?thesis by (simp add: handleJoinRoom_def)
next
  case (Some ci)
  show ?thesis
  proof (cases "truthy rid \<and> truthy pid")
    case False
    with Some show ?thesis by (auto simp: handleJoinRoom_def)
  next
    case True
    show ?thesis
    proof (cases "rooms s rid")
      case None
      with Some True show ?thesis
        using template_Cons_fails [of "stack env" rid pid]
        by (auto simp: handleJoinRoom_def Let_def split: prod.splits)
    next
      case (Some room)
      with \<open>clients s conn = Some ci\<close> True show ?thesis
        by (auto simp: handleJoinRoom_def Let_def split: prod.splits)
    qed
  qed
qed

lemma handleChat_raises:
  assumes "clients s conn = Some ci" and "truthy (roomId ci)" and "rooms s (roomId ci) \<noteq> None"
    and "nullish msg \<or> template (stack env)
           [get_field msg ''displayName'', playerId ci, get_field msg ''message''] \<noteq> None"
  shows "snd (snd (handleChat env conn msg s)) \<noteq> None"
  using assms by (auto simp: handleChat_def split: option.splits)

lemma handleChat_completes:
  assumes "clients s conn = Some ci" and "\<not> nullish msg"
    and "truthy (roomId ci) \<and> rooms s (roomId ci) \<noteq> None \<longrightarrow>
         primitive (get_field msg ''displayName'') \<and> primitive (playerId ci) \<and>
         primitive (get_field msg ''message'')"
  shows "snd (snd (handleChat env conn msg s)) = None"
  using assms
  by (auto simp: handleChat_def broadcastToRoom_eq template_primitive split: option.splits)

lemma handleActionComplete_raises:
  assumes "clients s conn = Some ci" and "truthy (roomId ci)" and "rooms s (roomId ci) \<noteq> None"
    and "template (stack env) [playerId ci] \<noteq> None"
  shows "snd (snd (handleActionComplete env conn msg s)) \<noteq> None"
  using assms by (auto simp: handleActionComplete_def split: option.splits)

lemma handleActionComplete_completes:
  assumes "clients s conn = Some ci"
    and "truthy (roomId ci) \<and> rooms s (roomId ci) \<noteq> None \<longrightarrow> primitive (playerId ci)"
  shows "snd (snd (handleActionComplete env conn msg s)) = None"
  using assms
  by (auto simp: handleActionComplete_def broadcastToRoom_eq template_primitive
      split: option.splits)

lemma handleGameOver_raises:
  assumes "clients s conn = Some ci" and "truthy (roomId ci)" and "rooms s (roomId ci) \<noteq> None"
    and "template (stack env) [playerId ci] \<noteq> None"
  shows "snd (snd (handleGameOver env conn msg s)) \<noteq> None"
  using assms by (auto simp: handleGameOver_def split: option.splits)

lemma handleGameOver_completes:
  assumes "clients s conn = Some ci"
    and "truthy (roomId ci) \<and> rooms s (roomId ci) \<noteq> None \<longrightarrow> primitive (playerId ci)"
  shows "snd (snd (handleGameOver env conn msg s)) = None"
  using assms
  by (auto simp: handleGameOver_def broadcastToRoom_eq template_primitive
      split: option.splits)

lemma handleMessage_dispatch:
  assumes "clients s conn = Some ci" and "\<not> nullish msg"
  shows "handleMessage env conn msg s =
      (if get_field msg ''type'' = JStr ''join_room''
       then handleJoinRoom env conn (get_field msg ''roomId'') (get_field msg ''playerId'') s
       else if get_field msg ''type'' = JStr ''chat'' then handleChat env conn msg s
       else if get_field msg ''type'' = JStr ''game_over'' then handleGameOver env conn msg s
       else if get_field msg ''type'' = JStr ''action_complete''
       then handleActionComplete env conn msg s
       else (s, [], template (stack env) [get_field msg ''type'']))"
  using assms by (simp add: handleMessage_def getprop_def)

lemma handleMessage_raises:
  assumes "clients s conn = Some ci"
    and "nullish msg \<or> template (stack env) (log_values s conn msg) \<noteq> None"
  shows "snd (snd (handleMessage env conn msg s)) \<noteq> None"
proof (cases "nullish msg")
  case True
  with assms(1) show ?thesis by (simp add: handleMessage_def getprop_def)
next
  case False
  with assms(2) have t: "template (stack env) (log_values s conn msg) \<noteq> None" by simp
  note hm = handleMessage_dispatch [OF assms(1) False, of env]
  consider (join) "get_field msg ''type'' = JStr ''join_room''"
    | (chat) "get_field msg ''type'' = JStr ''chat''"
    | (over) "get_field msg ''type'' = JStr ''game_over''"
    | (action) "get_field msg ''type'' = JStr ''action_complete''"
    | (other) "get_field msg ''type'' \<notin>
        {JStr ''join_room'', JStr ''chat'', JStr ''game_over'', JStr ''action_complete''}"
    by auto
  then show ?thesis
  proof cases
    case join
    then show ?thesis
      using assms(1) t handleJoinRoom_raises
        [of env conn "get_field msg ''roomId''" "get_field msg ''playerId''" s]
      by (auto simp: hm log_values_def template_Nil split: if_splits)
  next
    case chat
    then show ?thesis
      using assms(1) t handleChat_raises [OF assms(1), of msg env]
      by (auto simp: hm log_values_def template_Nil split: if_splits)
  next
    case over
    then show ?thesis
      using assms(1) t handleGameOver_raises [OF assms(1), of env msg]
      by (auto simp: hm log_values_def template_Nil split: if_splits)
  next
    case action
    then show ?thesis
      using assms(1) t handleActionComplete_raises [OF assms(1), of env msg]
      by (auto simp: hm log_values_def template_Nil split: if_splits)
  next
    case other
    then show ?thesis
      using assms(1) t by (auto simp: hm log_values_def)
  qed
qed

lemma handleMessage_completes:
  assumes "clients s conn = None \<or>
      \<not> nullish msg \<and> (\<forall>v \<in> set (log_values s conn msg). primitive v)"
  shows "snd (snd (handleMessage env conn msg s)) = None"
proof (cases "clients s conn")
  case None
  then show ?thesis by (simp add: handleMessage_def)
next
  case (Some ci)
  with assms have nn: "\<not> nullish msg"
    and pr: "\<forall>v \<in> set (log_values s conn msg). primitive v" by simp_all
  note hm = handleMessage_dispatch [OF Some nn, of env]
  consider (join) "get_field msg ''type'' = JStr ''join_room''"
    | (chat) "get_field msg ''type'' = JStr ''chat''"
    | (over) "get_field msg ''type'' = JStr ''game_over''"
    | (action) "get_field msg ''type'' = JStr ''action_complete''"
    | (other) "get_field msg ''type'' \<notin>
        {JStr ''join_room'', JStr ''chat'', JStr ''game_over'', JStr ''action_complete''}"
    by auto
  then show ?thesis
  proof cases
    case join
    then show ?thesis
      using Some pr handleJoinRoom_raises
        [of env conn "get_field msg ''roomId''" "get_field msg ''playerId''" s]
      by (auto simp: hm log_values_def template_primitive split: if_splits)
  next
    case chat
    then show ?thesis
      using Some pr handleChat_completes [OF Some nn, of env]
      by (auto simp: hm log_values_def split: if_splits)
  next
    case over
    then show ?thesis
      using Some pr handleGameOver_completes [OF Some, of env msg]
      by (auto simp: hm log_values_def split: if_splits)
  next
    case action
    then show ?thesis
      using Some pr handleActionComplete_completes [OF Some, of env msg]
      by (auto simp: hm log_values_def split: if_splits)
  next
    case other
    then show ?thesis
      using Some pr by (auto simp: hm log_values_def template_primitive)
  qed
qed

text \<open>
  Claim C5, amended. No error leaves the \<^verbatim>\<open>message\<close> listener, whatever the frame
  and the state: a frame that is not JSON is dropped with the state unchanged and
  nothing sent (the listener has no operation that closes a connection), and an
  error raised while a decoded message is handled is caught by the same \<^verbatim>\<open>try\<close>,
  the listener leaving the state and the broadcasts the handler had made. The
  dispatch and the handlers themselves do raise on some decoded messages of a
  registered sender: on \<^verbatim>\<open>null\<close>, and whenever a value that the message's path puts
  into a log line (\<open>log_values\<close>) does not convert to a string, which is so for an
  object with an own \<^verbatim>\<open>toString\<close> property, for an array that holds one, and for an
  array nested deeper than the call stack has room for. They run to completion
  when the sender is not registered, and when the message is not \<^verbatim>\<open>null\<close> and each of
  those values is a string, a number, a boolean, \<^verbatim>\<open>null\<close> or missing.
\<close>

theorem frame_errors_are_contained:
  "snd (snd (on_message env conn fr s)) = None \<and>
   on_message env conn NotJSON s = (s, [], None) \<and>
   on_message env conn (Decoded msg) s =
     (fst (handleMessage env conn msg s), fst (snd (handleMessage env conn msg s)), None) \<and>
   (clients s conn \<noteq> None \<and>
    (nullish msg \<or> template (stack env) (log_values s conn msg) \<noteq> None)
    \<longrightarrow> snd (snd (handleMessage env conn msg s)) \<noteq> None) \<and>
   (clients s conn = None \<or>
    \<not> nullish msg \<and> (\<forall>v \<in> set (log_values s conn msg). primitive v)
    \<longrightarrow> snd (snd (handleMessage env conn msg s)) = None)"
proof -
  have caught: "snd (snd (on_message env conn fr s)) = None"
    by (simp add: on_message_def split: frame.splits prod.splits)
  have dropped: "on_message env conn NotJSON s = (s, [], None)"
    by (simp add: on_message_def)
  have listener: "on_message env conn (Decoded msg) s =
      (fst (handleMessage env conn msg s), fst (snd (handleMessage env conn msg s)), None)"
    by (simp add: on_message_def split: prod.splits)
  have raises: "snd (snd (handleMessage env conn msg s)) \<noteq> None"
    if "clients s conn \<noteq> None"
      "nullish msg \<or> template (stack env) (log_values s conn msg) \<noteq> None"
    using that handleMessage_raises [of s conn _ msg env] by auto
  have completes: "snd (snd (handleMessage env conn msg s)) = None"
    if "clients s conn = None \<or>
      \<not> nullish msg \<and> (\<forall>v \<in> set (log_values s conn msg). primitive v)"
    using that by (rule handleMessage_completes)
  show ?thesis using caught dropped listener raises completes by blast
qed

theorem frame_errors_are_contained_witness:
  "on_message all_open 2 NotJSON lobby = (lobby, [], None) \<and>
   snd (snd (handleMessage all_open 1
      (JObj 0 [(''type'', JStr ''chat''), (''displayName'', JStr ''Al'')]) lobby)) = None \<and>
   snd (snd (handleMessage all_open 2
      (JObj 0 [(''type'', JNum 5), (''roomId'', JObj 1 [(''toString'', JNum 1)])]) lobby)) = None \<and>
   snd (snd (handleMessage all_open 1
      (JObj 0 [(''type'', JStr ''chat''), (''displayName'', JObj 1 [(''toString'', JNum 1)])])
      lobby)) \<noteq> None"
  using frame_errors_are_contained
      [where env = all_open and conn = 1 and s = lobby
         and msg = "JObj 0 [(''type'', JStr ''chat''), (''displayName'', JStr ''Al'')]"]
    frame_errors_are_contained
      [where env = all_open and conn = 2 and s = lobby
         and msg = "JObj 0 [(''type'', JNum 5), (''roomId'', JObj 1 [(''toString'', JNum 1)])]"]
    frame_errors_are_contained
      [where env = all_open and conn = 1 and s = lobby
         and msg = "JObj 0 [(''type'', JStr ''chat''),
                            (''displayName'', JObj 1 [(''toString'', JNum 1)])]"]
  by (simp add: lobby_eq log_values_def template_def all_open_def)

text \<open>
  The claim as stated fails: handling the decoded message \<^verbatim>\<open>{"type": {"toString": 1}}\<close>
  raises a TypeError in the default branch of the dispatch, where the log line is
  built from \<^verbatim>\<open>message.type\<close>; so does the decoded message \<^verbatim>\<open>null\<close>, at
  \<^verbatim>\<open>message.type\<close>. A \<^verbatim>\<open>join_room\<close> for a new room whose \<^verbatim>\<open>roomId\<close> does not convert
  raises after the room was created: the handler stops, and an empty room stays in
  the table.
\<close>

theorem handler_raises_counterexample:
  "handleMessage all_open 2 (JObj 0 [(''type'', JObj 1 [(''toString'', JNum 1)])]) lobby =
     (lobby, [], Some TypeError) \<and>
   handleMessage all_open 2 JNull lobby = (lobby, [], Some TypeError) \<and>
   snd (snd (handleMessage all_open 2
      (JObj 0 [(''type'', JStr ''join_room''), (''roomId'', JObj 1 [(''toString'', JNum 1)]),
               (''playerId'', JStr ''p2'')]) lobby)) = Some TypeError \<and>
   rooms (fst (handleMessage all_open 2
      (JObj 0 [(''type'', JStr ''join_room''), (''roomId'', JObj 1 [(''toString'', JNum 1)]),
               (''playerId'', JStr ''p2'')]) lobby)) (JObj 1 [(''toString'', JNum 1)]) =
     Some \<lparr>id_GameRoom = JObj 1 [(''toString'', JNum 1)], players = [], playerIds = []\<rparr>"
  by (simp add: lobby_eq eval_defs)

text \<open>
  With a stack that has room for two nested conversions, a \<^verbatim>\<open>type\<close> that is an
  array nested three deep raises a RangeError in the same log line.
\<close>

lemma handler_raises_on_deep_array:
  "handleMessage tight_stack 2 (JObj 0 [(''type'', nested_array 2)]) lobby =
     (lobby, [], Some RangeError)"
  by (simp add: lobby_eq eval_defs numeral_2_eq_2)

section \<open>The fields of outbound messages\<close>

lemma JSON_stringify_None: "(JSON_stringify v = None) = (v = Undefined)"
  by (cases v) simp_all

lemma keys_parse_members:
  "fst ` set (fst (parse_members n fs ms)) = fst ` set fs \<union> fst ` set ms"
proof (induction ms arbitrary: n fs)
  case Nil
  then show ?case by simp
next
  case (Cons m ms)
  obtain k t where m: "m = (k, t)" by (cases m)
  obtain v n' where p: "JSON_parse n t = (v, n')" by (cases "JSON_parse n t")
  show ?case
    using Cons.IH [of n' "Map_set k v fs"] by (simp add: m p keys_Map_set)
qed

lemma own_keys_parse_object:
  "set (own_keys (fst (JSON_parse n (TObj ms)))) = fst ` set ms"
proof -
  obtain fs n' where p: "parse_members (Suc n) [] ms = (fs, n')"
    by (cases "parse_members (Suc n) [] ms")
  then show ?thesis using keys_parse_members [of "Suc n" "[]" ms] by simp
qed

lemma set_stringified:
  "set (concat (map (\<lambda>(k, v). case JSON_stringify v of None \<Rightarrow> [] | Some t \<Rightarrow> [(k, t)]) m))
   = {(k, t). \<exists>v. (k, v) \<in> set m \<and> JSON_stringify v = Some t}"
  by (induction m) (auto split: option.splits)

lemma wire_keys_eq: "wire_keys n m = {k. \<exists>v. (k, v) \<in> set m \<and> v \<noteq> Undefined}"
proof -
  have "wire_keys n m =
      fst ` {(k, t). \<exists>v. (k, v) \<in> set m \<and> JSON_stringify v = Some t}"
    by (simp only: wire_keys_def stringify_Message_def own_keys_parse_object set_stringified)
  also have "\<dots> = {k. \<exists>v. (k, v) \<in> set m \<and> v \<noteq> Undefined}"
  proof (intro set_eqI iffI)
    fix k assume "k \<in> fst ` {(k, t). \<exists>v. (k, v) \<in> set m \<and> JSON_stringify v = Some t}"
    then obtain v t where "(k, v) \<in> set m" "JSON_stringify v = Some t" by auto
    moreover from this have "v \<noteq> Undefined" by auto
    ultimately show "k \<in> {k. \<exists>v. (k, v) \<in> set m \<and> v \<noteq> Undefined}" by blast
  next
    fix k assume "k \<in> {k. \<exists>v. (k, v) \<in> set m \<and> v \<noteq> Undefined}"
    then obtain v where v: "(k, v) \<in> set m" "v \<noteq> Undefined" by blast
    then obtain t where "JSON_stringify v = Some t"
      using JSON_stringify_None [of v] by (cases "JSON_stringify v") auto
    with v show "k \<in> fst ` {(k, t). \<exists>v. (k, v) \<in> set m \<and> JSON_stringify v = Some t}"
      by force
  qed
  finally show ?thesis .
qed

lemma message_addPlayer:
  "addPlayer rs room conn cid pid = (room', out) \<Longrightarrow> b \<in> set out
   \<Longrightarrow> message b = [(''type'', JStr ''game_started'')]"
  by (auto simp: addPlayer_def Let_def broadcastToRoom_eq split: if_splits)

lemma message_handleJoinRoom:
  "b \<in> set (fst (snd (handleJoinRoom env conn rid pid s)))
   \<Longrightarrow> message b = [(''type'', JStr ''game_started'')]"
  by (auto simp: handleJoinRoom_def Let_def split: option.splits if_splits prod.splits
      dest: message_addPlayer)

lemma message_handleChat:
  "playerIds_defined s \<Longrightarrow> b \<in> set (fst (snd (handleChat env conn msg s)))
   \<Longrightarrow> \<exists>pid. pid \<noteq> Undefined \<and>
         message b = [(''type'', JStr ''chat''), (''playerId'', pid),
                      (''displayName'', get_field msg ''displayName''),
                      (''message'', get_field msg ''message'')]"
  by (auto simp: handleChat_def playerIds_defined_def broadcastToRoom_eq
      split: option.splits if_splits)

lemma message_handleActionComplete:
  "playerIds_defined s \<Longrightarrow> b \<in> set (fst (snd (handleActionComplete env conn msg s)))
   \<Longrightarrow> \<exists>pid. pid \<noteq> Undefined \<and>
         message b = [(''type'', JStr ''action_complete''), (''playerId'', pid)]"
  by (auto simp: handleActionComplete_def playerIds_defined_def broadcastToRoom_eq
      split: option.splits if_splits)

lemma message_handleGameOver:
  "playerIds_defined s \<Longrightarrow> b \<in> set (fst (snd (handleGameOver env conn msg s)))
   \<Longrightarrow> \<exists>pid. pid \<noteq> Undefined \<and>
         message b = [(''type'', JStr ''game_over''), (''playerId'', pid)]"
  by (auto simp: handleGameOver_def playerIds_defined_def broadcastToRoom_eq
      split: option.splits if_splits)

lemma message_handleDisconnect:
  "b \<in> set (fst (snd (handleDisconnect env conn s)))
   \<Longrightarrow> \<exists>pid. pid \<noteq> Undefined \<and>
         message b = [(''type'', JStr ''disconnect''), (''playerId'', pid)]"
  by (auto simp: handleDisconnect_def handlePlayerDisconnect_def Let_def broadcastToRoom_eq
      split: option.splits if_splits prod.splits)

lemma wire_keys_game_started: "wire_keys n [(''type'', JStr ''game_started'')] = {''type''}"
  by (auto simp: wire_keys_eq)

lemma wire_keys_with_playerId:
  "pid \<noteq> Undefined \<Longrightarrow> wire_keys n [(''type'', JStr t), (''playerId'', pid)] = {''type'', ''playerId''}"
  by (auto simp: wire_keys_eq)

lemma wire_keys_chat:
  "pid \<noteq> Undefined \<Longrightarrow>
   wire_keys n [(''type'', JStr ''chat''), (''playerId'', pid), (''displayName'', d), (''message'', m)]
   = {''type'', ''playerId''} \<union> (if d \<noteq> Undefined then {''displayName''} else {})
       \<union> (if m \<noteq> Undefined then {''message''} else {})"
  by (auto simp: wire_keys_eq)

text \<open>
  Claim C6, amended. Every message a handler broadcasts, serialized and parsed
  again, gives an object with these property names: \<^verbatim>\<open>type\<close> alone for
  \<^verbatim>\<open>game_started\<close>; \<^verbatim>\<open>type\<close> and \<^verbatim>\<open>playerId\<close> for \<^verbatim>\<open>action_complete\<close>, \<^verbatim>\<open>game_over\<close>
  and \<^verbatim>\<open>disconnect\<close>; and for \<^verbatim>\<open>chat\<close>, \<^verbatim>\<open>type\<close> and \<^verbatim>\<open>playerId\<close>, with
  \<^verbatim>\<open>displayName\<close> exactly when the inbound chat event carries a \<^verbatim>\<open>displayName\<close>, and
  \<^verbatim>\<open>message\<close> exactly when it carries a \<^verbatim>\<open>message\<close> (\<^verbatim>\<open>JSON.stringify\<close> drops a
  property whose value is \<^verbatim>\<open>undefined\<close>). This holds for every event, in every state
  where no \<^verbatim>\<open>ClientInfo.playerId\<close> is \<^verbatim>\<open>undefined\<close>, which the server keeps true.
\<close>

theorem outbound_field_sets:
  assumes "playerIds_defined s" and "b \<in> set (fst (snd (step env ev s)))"
  shows "(map_of (message b) ''type'' = Some (JStr ''game_started'') \<and>
          wire_keys n (message b) = {''type''}) \<or>
         (map_of (message b) ''type'' \<in>
            {Some (JStr ''action_complete''), Some (JStr ''game_over''), Some (JStr ''disconnect'')} \<and>
          wire_keys n (message b) = {''type'', ''playerId''}) \<or>
         (map_of (message b) ''type'' = Some (JStr ''chat'') \<and>
          (\<exists>conn msg. ev = Message_event conn (Decoded msg) \<and>
             get_field msg ''type'' = JStr ''chat'' \<and>
             wire_keys n (message b) =
               {''type'', ''playerId''} \<union>
               (if get_field msg ''displayName'' \<noteq> Undefined then {''displayName''} else {}) \<union>
               (if get_field msg ''message'' \<noteq> Undefined then {''message''} else {})))"
proof (cases ev)
  case (Connection conn cid)
  with assms(2) show ?thesis by (simp add: step_def)
next
  case (Close conn)
  with assms(2) have "b \<in> set (fst (snd (handleDisconnect env conn s)))"
    by (simp add: step_def)
  then obtain pid where "pid \<noteq> Undefined"
    "message b = [(''type'', JStr ''disconnect''), (''playerId'', pid)]"
    using message_handleDisconnect by blast
  then show ?thesis by (simp add: wire_keys_with_playerId)
next
  case (Message_event conn fr)
  show ?thesis
  proof (cases fr)
    case NotJSON
    with Message_event assms(2) show ?thesis by (simp add: step_def on_message_def)
  next
    case (Decoded msg)
    with Message_event assms(2) have b: "b \<in> set (fst (snd (handleMessage env conn msg s)))"
      by (simp add: step_def on_message_def split: prod.splits)
    consider (join) "get_field msg ''type'' = JStr ''join_room''"
        "b \<in> set (fst (snd (handleJoinRoom env conn (get_field msg ''roomId'')
                               (get_field msg ''playerId'') s)))"
      | (chat) "get_field msg ''type'' = JStr ''chat''"
        "b \<in> set (fst (snd (handleChat env conn msg s)))"
      | (over) "b \<in> set (fst (snd (handleGameOver env conn msg s)))"
      | (action) "b \<in> set (fst (snd (handleActionComplete env conn msg s)))"
      using b
      by (auto simp: handleMessage_def getprop_def split: option.splits if_splits)
    then show ?thesis
    proof cases
      case join
      then have "message b = [(''type'', JStr ''game_started'')]"
        using message_handleJoinRoom by blast
      then show ?thesis by (simp add: wire_keys_game_started)
    next
      case chat
      then obtain pid where "pid \<noteq> Undefined"
        "message b = [(''type'', JStr ''chat''), (''playerId'', pid),
                      (''displayName'', get_field msg ''displayName''),
                      (''message'', get_field msg ''message'')]"
        using message_handleChat [OF assms(1)] by blast
      then show ?thesis
        using chat(1) Message_event Decoded by (simp add: wire_keys_chat)
    next
      case over
      then obtain pid where "pid \<noteq> Undefined"
        "message b = [(''type'', JStr ''game_over''), (''playerId'', pid)]"
        using message_handleGameOver [OF assms(1)] by blast
      then show ?thesis by (simp add: wire_keys_with_playerId)
    next
      case action
      then obtain pid where "pid \<noteq> Undefined"
        "message b = [(''type'', JStr ''action_complete''), (''playerId'', pid)]"
        using message_handleActionComplete [OF assms(1)] by blast
      then show ?thesis by (simp add: wire_keys_with_playerId)
    qed
  qed
qed

theorem outbound_field_sets_witness:
  "playerIds_defined full_room \<and>
   fst (snd (step all_open
     (Message_event 1 (Decoded (JObj 0 [(''type'', JStr ''chat''), (''displayName'', JStr ''Al''),
                                        (''message'', JStr ''hi'')]))) full_room)) =
     [\<lparr>of_room = JStr ''r1'',
       message = [(''type'', JStr ''chat''), (''playerId'', JStr ''p1''),
                  (''displayName'', JStr ''Al''), (''message'', JStr ''hi'')],
       sent = [(1, TObj [(''type'', TStr ''chat''), (''playerId'', TStr ''p1''),
                         (''displayName'', TStr ''Al''), (''message'', TStr ''hi'')]),
               (2, TObj [(''type'', TStr ''chat''), (''playerId'', TStr ''p1''),
                         (''displayName'', TStr ''Al''), (''message'', TStr ''hi'')])]\<rparr>] \<and>
   wire_keys 0 [(''type'', JStr ''chat''), (''playerId'', JStr ''p1''),
                (''displayName'', JStr ''Al''), (''message'', JStr ''hi'')] =
     {''type'', ''playerId'', ''displayName'', ''message''}"
  using outbound_field_sets
    [where s = full_room and env = all_open and n = 0
       and ev = "Message_event 1 (Decoded (JObj 0 [(''type'', JStr ''chat''),
                   (''displayName'', JStr ''Al''), (''message'', JStr ''hi'')]))"
       and b = "\<lparr>of_room = JStr ''r1'',
       message = [(''type'', JStr ''chat''), (''playerId'', JStr ''p1''),
                  (''displayName'', JStr ''Al''), (''message'', JStr ''hi'')],
       sent = [(1, TObj [(''type'', TStr ''chat''), (''playerId'', TStr ''p1''),
                         (''displayName'', TStr ''Al''), (''message'', TStr ''hi'')]),
               (2, TObj [(''type'', TStr ''chat''), (''playerId'', TStr ''p1''),
                         (''displayName'', TStr ''Al''), (''message'', TStr ''hi'')])]\<rparr>"]
  by (simp add: full_room_eq eval_defs stringify_Message_def playerIds_defined_def insert_commute)

text \<open>
  The claim as stated fails for a \<^verbatim>\<open>chat\<close> event that leaves out \<^verbatim>\<open>displayName\<close> and
  \<^verbatim>\<open>message\<close>: the handler builds the message with both properties \<^verbatim>\<open>undefined\<close>, the
  text sent has neither, and the receiver's object has the properties \<^verbatim>\<open>type\<close> and
  \<^verbatim>\<open>playerId\<close> only.
\<close>

theorem chat_fields_counterexample:
  "fst (snd (step all_open (Message_event 1 (Decoded (JObj 0 [(''type'', JStr ''chat'')])))
               full_room)) =
     [\<lparr>of_room = JStr ''r1'',
       message = [(''type'', JStr ''chat''), (''playerId'', JStr ''p1''),
                  (''displayName'', Undefined), (''message'', Undefined)],
       sent = [(1, TObj [(''type'', TStr ''chat''), (''playerId'', TStr ''p1'')]),
               (2, TObj [(''type'', TStr ''chat''), (''playerId'', TStr ''p1'')])]\<rparr>] \<and>
   wire_keys 0 [(''type'', JStr ''chat''), (''playerId'', JStr ''p1''),
                (''displayName'', Undefined), (''message'', Undefined)] = {''type'', ''playerId''} \<and>
   ''displayName'' \<notin> wire_keys 0 [(''type'', JStr ''chat''), (''playerId'', JStr ''p1''),
                (''displayName'', Undefined), (''message'', Undefined)]"
  by (simp add: full_room_eq eval_defs stringify_Message_def wire_keys_chat)

section \<open>Invariants of the server\<close>

lemma on_message_Decoded:
  "on_message env conn (Decoded msg) s =
     (fst (handleMessage env conn msg s), fst (snd (handleMessage env conn msg s)), None)"
  by (simp add: on_message_def split_beta)

lemma playerIds_defined_new: "playerIds_defined new_GameServer"
  by (simp add: playerIds_defined_def new_GameServer_def)

lemma playerIds_defined_step:
  assumes "playerIds_defined s"
  shows "playerIds_defined (fst (step env ev s))"
proof (cases ev)
  case (Connection conn cid)
  with assms show ?thesis
    by (auto simp: step_def on_connection_def playerIds_defined_def)
next
  case (Close conn)
  with assms show ?thesis
    by (auto simp: step_def handleDisconnect_def handlePlayerDisconnect_def Let_def
        playerIds_defined_def broadcastToRoom_eq split: option.splits if_splits prod.splits)
next
  case (Message_event conn fr)
  have j: "playerIds_defined (fst (handleJoinRoom env conn rid pid s))" for rid pid
    using assms
    by (auto simp: handleJoinRoom_def Let_def playerIds_defined_def
        split: option.splits if_splits prod.splits)
  have c: "playerIds_defined (fst (handleChat env conn msg s))" for msg
    using assms
    by (auto simp: handleChat_def playerIds_defined_def broadcastToRoom_eq
        split: option.splits if_splits)
  have g: "playerIds_defined (fst (handleGameOver env conn msg s))" for msg
    using assms
    by (auto simp: handleGameOver_def playerIds_defined_def broadcastToRoom_eq
        split: option.splits if_splits)
  have a: "playerIds_defined (fst (handleActionComplete env conn msg s))" for msg
    using assms
    by (auto simp: handleActionComplete_def playerIds_defined_def broadcastToRoom_eq
        split: option.splits if_splits)
  have "playerIds_defined (fst (handleMessage env conn msg s))" for msg
    using assms j c g a
    by (simp add: handleMessage_def getprop_def split: option.splits sum.splits)
  with assms Message_event show ?thesis
    by (cases fr) (simp_all add: step_def on_message_Decoded, simp add: on_message_def)
qed

lemma room_ids_ok_new: "room_ids_ok new_GameServer"
  by (simp add: room_ids_ok_def new_GameServer_def)

lemma room_ids_ok_handleJoinRoom:
  "room_ids_ok s \<Longrightarrow> room_ids_ok (fst (handleJoinRoom env conn rid pid s))"
  by (auto simp: handleJoinRoom_def Let_def room_ids_ok_def new_GameRoom_def
      addPlayer_def broadcastToRoom_eq
      split: option.splits if_splits prod.splits)

lemma unchanged_handleChat: "fst (handleChat env conn msg s) = s"
  by (auto simp: handleChat_def broadcastToRoom_eq map_upd_triv split: option.splits)

lemma unchanged_handleGameOver: "fst (handleGameOver env conn msg s) = s"
  by (auto simp: handleGameOver_def broadcastToRoom_eq map_upd_triv split: option.splits)

lemma unchanged_handleActionComplete: "fst (handleActionComplete env conn msg s) = s"
  by (auto simp: handleActionComplete_def broadcastToRoom_eq map_upd_triv split: option.splits)

lemma room_ids_ok_handleDisconnect:
  "room_ids_ok s \<Longrightarrow> room_ids_ok (fst (handleDisconnect env conn s))"
  by (auto simp: handleDisconnect_def handlePlayerDisconnect_def Let_def room_ids_ok_def
      broadcastToRoom_eq removePlayer_def split: option.splits if_splits prod.splits)

lemma room_ids_ok_step:
  assumes "room_ids_ok s"
  shows "room_ids_ok (fst (step env ev s))"
proof (cases ev)
  case (Connection conn cid)
  with assms show ?thesis by (simp add: step_def on_connection_def room_ids_ok_def)
next
  case (Close conn)
  with assms show ?thesis by (simp add: step_def room_ids_ok_handleDisconnect)
next
  case (Message_event conn fr)
  have "room_ids_ok (fst (handleMessage env conn msg s))" for msg
    using assms
    by (simp add: handleMessage_def getprop_def room_ids_ok_handleJoinRoom unchanged_handleChat
        unchanged_handleGameOver unchanged_handleActionComplete split: option.splits)
  with assms Message_event show ?thesis
    by (cases fr) (simp_all add: step_def on_message_Decoded, simp add: on_message_def)
qed

lemma room_ids_ok_run: "room_ids_ok s \<Longrightarrow> room_ids_ok (fst (run evs s))"
proof (induction evs arbitrary: s)
  case Nil
  then show ?case by simp
next
  case (Cons a evs)
  obtain env ev where a: "a = (env, ev)" by (cases a)
  obtain s' out e where st: "step env ev s = (s', out, e)" by (cases "step env ev s")
  have ok: "room_ids_ok s'" using room_ids_ok_step [OF Cons.prems, of env ev] st by simp
  show ?case
  proof (cases e)
    case None
    then show ?thesis using Cons.IH [OF ok] a st by (simp add: split_beta)
  next
    case (Some err)
    then show ?thesis using ok a st by simp
  qed
qed

lemma playerIds_defined_run: "playerIds_defined s \<Longrightarrow> playerIds_defined (fst (run evs s))"
proof (induction evs arbitrary: s)
  case Nil
  then show ?case by simp
next
  case (Cons a evs)
  obtain env ev where a: "a = (env, ev)" by (cases a)
  obtain s' out e where st: "step env ev s = (s', out, e)" by (cases "step env ev s")
  have ok: "playerIds_defined s'" using playerIds_defined_step [OF Cons.prems, of env ev] st by simp
  show ?case
  proof (cases e)
    case None
    then show ?thesis using Cons.IH [OF ok] a st by (simp add: split_beta)
  next
    case (Some err)
    then show ?thesis using ok a st by simp
  qed
qed

section \<open>When \<^verbatim>\<open>game_started\<close> is broadcast\<close>

lemma game_started_handleJoinRoom:
  assumes "room_ids_ok s"
  shows "game_started_count r (fst (snd (handleJoinRoom env conn rid pid s))) =
           (if memberCount s r = 1 \<and> memberCount (fst (handleJoinRoom env conn rid pid s)) r = 2
            then 1 else 0) \<and>
         (memberCount (fst (handleJoinRoom env conn rid pid s)) r = memberCount s r \<or>
          r = rid \<and> truthy rid \<and> truthy pid \<and>
          memberCount (fst (handleJoinRoom env conn rid pid s)) r = Suc (memberCount s r))"
  using assms
  by (auto simp: handleJoinRoom_def Let_def room_ids_ok_def new_GameRoom_def addPlayer_def
      broadcastToRoom_eq hasPlayer_def length_Map_set memberCount_def getPlayerCount_def
      game_started_count_def
      split: option.splits if_splits prod.splits)

lemma game_started_relay:
  "game_started_count r (fst (snd (handleChat env conn msg s))) = 0"
  "game_started_count r (fst (snd (handleGameOver env conn msg s))) = 0"
  "game_started_count r (fst (snd (handleActionComplete env conn msg s))) = 0"
  by (auto simp: handleChat_def handleGameOver_def handleActionComplete_def broadcastToRoom_eq
      game_started_count_def split: option.splits)

lemma game_started_count_Nil: "game_started_count r [] = 0"
  by (simp add: game_started_count_def)

lemma game_started_handleDisconnect:
  "game_started_count r (fst (snd (handleDisconnect env conn s))) = 0 \<and>
   memberCount (fst (handleDisconnect env conn s)) r \<le> memberCount s r"
  by (auto simp: handleDisconnect_def handlePlayerDisconnect_def Let_def broadcastToRoom_eq
      game_started_count_def memberCount_def getPlayerCount_def removePlayer_def
      length_Map_delete split: option.splits if_splits prod.splits)

lemma step_not_Close:
  assumes "room_ids_ok s" and "\<not> is_Close ev"
  shows "snd (snd (step env ev s)) = None \<and>
         game_started_count r (fst (snd (step env ev s))) =
           (if memberCount s r = 1 \<and> memberCount (fst (step env ev s)) r = 2 then 1 else 0) \<and>
         (memberCount (fst (step env ev s)) r = memberCount s r \<or>
          memberCount (fst (step env ev s)) r = Suc (memberCount s r) \<and>
          (\<exists>conn msg. ev = Message_event conn (Decoded msg) \<and>
             get_field msg ''type'' = JStr ''join_room'' \<and> get_field msg ''roomId'' = r))"
proof (cases ev)
  case (Connection conn cid)
  then show ?thesis
    by (simp add: step_def on_connection_def game_started_count_def memberCount_def)
next
  case (Close conn)
  with assms(2) show ?thesis by simp
next
  case (Message_event conn fr)
  show ?thesis
  proof (cases fr)
    case NotJSON
    with Message_event show ?thesis
      by (simp add: step_def on_message_def game_started_count_def)
  next
    case (Decoded msg)
    have st: "fst (step env ev s) = fst (handleMessage env conn msg s)"
      "fst (snd (step env ev s)) = fst (snd (handleMessage env conn msg s))"
      "snd (snd (step env ev s)) = None"
      using Message_event Decoded by (simp_all add: step_def on_message_Decoded)
    have is_join: "\<exists>conn msg. ev = Message_event conn (Decoded msg) \<and>
        get_field msg ''type'' = JStr ''join_room'' \<and> get_field msg ''roomId'' = r"
      if "get_field msg ''type'' = JStr ''join_room''" "get_field msg ''roomId'' = r"
      using that Message_event Decoded by blast
    show ?thesis
    proof (cases "clients s conn \<noteq> None \<and> \<not> nullish msg \<and>
        get_field msg ''type'' = JStr ''join_room''")
      case True
      then have hm: "handleMessage env conn msg s =
          handleJoinRoom env conn (get_field msg ''roomId'') (get_field msg ''playerId'') s"
        by (auto simp: handleMessage_def getprop_def)
      show ?thesis
        unfolding st hm
        using game_started_handleJoinRoom
          [OF assms(1), of r env conn "get_field msg ''roomId''" "get_field msg ''playerId''"]
          True is_join
        by auto
    next
      case False
      then have "fst (handleMessage env conn msg s) = s \<and>
          game_started_count r (fst (snd (handleMessage env conn msg s))) = 0"
        by (auto simp: handleMessage_def getprop_def unchanged_handleChat
            unchanged_handleGameOver unchanged_handleActionComplete game_started_relay
            game_started_count_Nil split: option.splits)
      then show ?thesis unfolding st by simp
    qed
  qed
qed

text \<open>
  Claim C2, amended. In every state where the rooms are stored under their own ids
  (the server keeps that true), and for every event and every room: the step
  broadcasts \<^verbatim>\<open>game_started\<close> for the room once if it raises the room's member count
  from 1 to exactly 2, and not at all otherwise; and a step that raises a room's
  member count is a \<^verbatim>\<open>join_room\<close> for that room and raises it by one. So
  \<^verbatim>\<open>game_started\<close> goes out precisely at the steps where a second participant
  joins: once while members only join, and again each time a disconnect has
  brought the room back to one member and another participant joins.
\<close>

theorem game_started_when_second_member_joins:
  assumes "room_ids_ok s"
  shows "game_started_count r (fst (snd (step env ev s))) =
           (if memberCount s r = 1 \<and> memberCount (fst (step env ev s)) r = 2 then 1 else 0) \<and>
         (memberCount s r < memberCount (fst (step env ev s)) r \<longrightarrow>
            memberCount (fst (step env ev s)) r = Suc (memberCount s r) \<and>
            (\<exists>conn msg. ev = Message_event conn (Decoded msg) \<and>
               get_field msg ''type'' = JStr ''join_room'' \<and> get_field msg ''roomId'' = r))"
proof (cases "is_Close ev")
  case True
  then obtain conn where "ev = Close conn" by (cases ev) simp_all
  then show ?thesis
    using game_started_handleDisconnect [of r env conn s] by (auto simp: step_def)
next
  case False
  show ?thesis
    using step_not_Close [OF assms False, of env r] by auto
qed

theorem game_started_when_second_member_joins_witness:
  "room_ids_ok lobby \<and>
   memberCount lobby (JStr ''r1'') = 1 \<and>
   memberCount (fst (step all_open (Message_event 2 (join_room (JStr ''r1'') (JStr ''p2''))) lobby))
     (JStr ''r1'') = 2 \<and>
   game_started_count (JStr ''r1'')
     (fst (snd (step all_open (Message_event 2 (join_room (JStr ''r1'') (JStr ''p2''))) lobby))) = 1"
  using game_started_when_second_member_joins
    [where s = lobby and r = "JStr ''r1''" and env = all_open
       and ev = "Message_event 2 (join_room (JStr ''r1'') (JStr ''p2''))"]
  by (simp add: room_ids_ok_def lobby_eq eval_defs)

text \<open>
  The claim as stated fails: after the second member of \<^verbatim>\<open>r1\<close> disconnects, a third
  participant joins and \<^verbatim>\<open>game_started\<close> is broadcast for \<^verbatim>\<open>r1\<close> a second time.
\<close>

theorem game_started_twice_counterexample:
  "game_started_count (JStr ''r1'') (fst (snd (run
     [(all_open, Connection 1 ''c1''),
      (all_open, Connection 2 ''c2''),
      (all_open, Connection 3 ''c3''),
      (all_open, Message_event 1 (join_room (JStr ''r1'') (JStr ''p1''))),
      (all_open, Message_event 2 (join_room (JStr ''r1'') (JStr ''p2''))),
      (closed_only 2, Close 2),
      (all_open, Message_event 3 (join_room (JStr ''r1'') (JStr ''p3'')))] new_GameServer))) = 2"
  by (simp add: eval_defs game_started_count_def)

section \<open>More than two members\<close>

text \<open>
  Claim C1 does not hold of the code. \<^verbatim>\<open>addPlayer\<close> announces the room as full at
  two players and \<^verbatim>\<open>isFull\<close> says so, but \<^verbatim>\<open>handleJoinRoom\<close> never asks: three
  connections that join \<^verbatim>\<open>r1\<close> under three player ids are all admitted, and the
  room has three members.
\<close>

theorem three_members_after_three_joins:
  "memberCount (fst (run
     [(all_open, Connection 1 ''c1''),
      (all_open, Connection 2 ''c2''),
      (all_open, Connection 3 ''c3''),
      (all_open, Message_event 1 (join_room (JStr ''r1'') (JStr ''p1''))),
      (all_open, Message_event 2 (join_room (JStr ''r1'') (JStr ''p2''))),
      (all_open, Message_event 3 (join_room (JStr ''r1'') (JStr ''p3'')))] new_GameServer))
     (JStr ''r1'') = 3 \<and>
   isFull (the (rooms full_room (JStr ''r1''))) \<and>
   memberCount (fst (step all_open (Message_event 3 (join_room (JStr ''r1'') (JStr ''p3'')))
                  (on_connection 3 ''c3'' full_room))) (JStr ''r1'') = 3"
  by (simp add: eval_defs full_room_eq isFull_def)

section \<open>Runs\<close>

lemma game_started_count_append:
  "game_started_count r (out @ out') = game_started_count r out + game_started_count r out'"
  by (simp add: game_started_count_def)

text \<open>
  While no connection closes, no listener raises, a room never loses a member, and
  \<^verbatim>\<open>game_started\<close> is broadcast for a room once if the run takes it from fewer than
  two members to two or more, and not at all otherwise: at most once per room.
\<close>

theorem game_started_once_while_only_joining:
  assumes "room_ids_ok s" and "list_all (\<lambda>(env, ev). \<not> is_Close ev) evs"
  shows "snd (snd (run evs s)) = None \<and>
         memberCount s r \<le> memberCount (fst (run evs s)) r \<and>
         game_started_count r (fst (snd (run evs s))) =
           (if memberCount s r < 2 \<and> 2 \<le> memberCount (fst (run evs s)) r then 1 else 0)"
  using assms
proof (induction evs arbitrary: s)
  case Nil
  then show ?case by (simp add: game_started_count_Nil)
next
  case (Cons a evs)
  obtain env ev where a: "a = (env, ev)" by (cases a)
  obtain s' out e where st: "step env ev s = (s', out, e)" by (cases "step env ev s")
  have nc: "\<not> is_Close ev" and rest: "list_all (\<lambda>(env, ev). \<not> is_Close ev) evs"
    using Cons.prems(2) a by simp_all
  have ok: "room_ids_ok s'"
    using room_ids_ok_step [OF Cons.prems(1), of env ev] st by simp
  have one: "e = None"
    "game_started_count r out = (if memberCount s r = 1 \<and> memberCount s' r = 2 then 1 else 0)"
    "memberCount s' r = memberCount s r \<or> memberCount s' r = Suc (memberCount s r)"
    using step_not_Close [OF Cons.prems(1) nc, of env r] st by auto
  obtain s'' out' e' where rn: "run evs s' = (s'', out', e')" by (cases "run evs s'")
  have more: "e' = None" "memberCount s' r \<le> memberCount s'' r"
    "game_started_count r out' = (if memberCount s' r < 2 \<and> 2 \<le> memberCount s'' r then 1 else 0)"
    using Cons.IH [OF ok rest] rn by simp_all
  have whole: "run (a # evs) s = (s'', out @ out', None)"
    using a st rn one(1) more(1) by simp
  show ?case
    unfolding whole using one(2,3) more(2,3)
    by (auto simp: game_started_count_append split: if_splits)
qed

theorem game_started_once_while_only_joining_witness:
  "game_started_count (JStr ''r1'') (fst (snd (run
     [(all_open, Connection 1 ''c1''),
      (all_open, Connection 2 ''c2''),
      (all_open, Connection 3 ''c3''),
      (all_open, Message_event 1 (join_room (JStr ''r1'') (JStr ''p1''))),
      (all_open, Message_event 2 (join_room (JStr ''r1'') (JStr ''p2''))),
      (all_open, Message_event 3 (join_room (JStr ''r1'') (JStr ''p3'')))] new_GameServer))) = 1"
  using game_started_once_while_only_joining
    [OF room_ids_ok_new, where r = "JStr ''r1''"
       and evs = "[(all_open, Connection 1 ''c1''),
      (all_open, Connection 2 ''c2''),
      (all_open, Connection 3 ''c3''),
      (all_open, Message_event 1 (join_room (JStr ''r1'') (JStr ''p1''))),
      (all_open, Message_event 2 (join_room (JStr ''r1'') (JStr ''p2''))),
      (all_open, Message_event 3 (join_room (JStr ''r1'') (JStr ''p3'')))]"]
  by (simp add: eval_defs)

text \<open>
  Every state the server reaches from its start keeps each room under its own id
  and no \<^verbatim>\<open>ClientInfo.playerId\<close> \<^verbatim>\<open>undefined\<close>.
\<close>

theorem reachable_states_are_well_formed:
  "room_ids_ok (fst (run evs new_GameServer)) \<and> playerIds_defined (fst (run evs new_GameServer))"
  by (simp add: room_ids_ok_run room_ids_ok_new playerIds_defined_run playerIds_defined_new)

theorem reachable_states_are_well_formed_witness:
  "room_ids_ok lobby \<and> playerIds_defined lobby"
  unfolding lobby_def by (rule reachable_states_are_well_formed)

text \<open>
  A two-player session. Connection 1 joins \<^verbatim>\<open>r1\<close> as \<^verbatim>\<open>p1\<close> and connection 2 as
  \<^verbatim>\<open>p2\<close>: both are sent \<^verbatim>\<open>game_started\<close>. Connection 1 sends a chat: both are sent
  the chat with \<^verbatim>\<open>playerId\<close> \<^verbatim>\<open>p1\<close>. The channel of connection 2 closes: connection
  1 is sent the \<^verbatim>\<open>disconnect\<close> of \<^verbatim>\<open>p2\<close>, connection 2 leaves the room and the
  registry, and \<^verbatim>\<open>r1\<close> stays in the table with \<^verbatim>\<open>p1\<close> as its only member.
\<close>

theorem two_player_session:
  "run [(all_open, Connection 1 ''c1''),
        (all_open, Connection 2 ''c2''),
        (all_open, Message_event 1 (join_room (JStr ''r1'') (JStr ''p1''))),
        (all_open, Message_event 2 (join_room (JStr ''r1'') (JStr ''p2''))),
        (all_open, Message_event 1 (Decoded (JObj 0 [(''type'', JStr ''chat''),
           (''displayName'', JStr ''Al''), (''message'', JStr ''hi'')]))),
        (closed_only 2, Close 2)] new_GameServer =
   (\<lparr>rooms = [JStr ''r1'' \<mapsto> \<lparr>id_GameRoom = JStr ''r1'',
                 players = [(JStr ''p1'', \<lparr>ws = 1, clientId = ''c1''\<rparr>)],
                 playerIds = [JStr ''p1'']\<rparr>],
      clients = [1 \<mapsto> \<lparr>id_ClientInfo = ''c1'', roomId = JStr ''r1'', playerId = JStr ''p1''\<rparr>]\<rparr>,
    [\<lparr>of_room = JStr ''r1'', message = [(''type'', JStr ''game_started'')],
      sent = [(1, TObj [(''type'', TStr ''game_started'')]),
              (2, TObj [(''type'', TStr ''game_started'')])]\<rparr>,
     \<lparr>of_room = JStr ''r1'',
      message = [(''type'', JStr ''chat''), (''playerId'', JStr ''p1''),
                 (''displayName'', JStr ''Al''), (''message'', JStr ''hi'')],
      sent = [(1, TObj [(''type'', TStr ''chat''), (''playerId'', TStr ''p1''),
                        (''displayName'', TStr ''Al''), (''message'', TStr ''hi'')]),
              (2, TObj [(''type'', TStr ''chat''), (''playerId'', TStr ''p1''),
                        (''displayName'', TStr ''Al''), (''message'', TStr ''hi'')])]\<rparr>,
     \<lparr>of_room = JStr ''r1'',
      message = [(''type'', JStr ''disconnect''), (''playerId'', JStr ''p2'')],
      sent = [(1, TObj [(''type'', TStr ''disconnect''), (''playerId'', TStr ''p2'')])]\<rparr>],
    None)"
  by (simp add: eval_defs stringify_Message_def fun_upd_twist)

end
